theory Spec2Isabelle
  imports Complex_Main
begin

section \<open>Python values, errors and indexing\<close>

text \<open>
  The data pipeline of \<^verbatim>\<open>speech_recognition/data/data_loader.py\<close> is embedded
  function by function. An exception of the source is the \<open>Inl\<close> branch of a sum;
  Python's unbounded integers are \<open>int\<close>; floats are modelled by exact reals (rounding is
  not modelled, and no statement below depends on it).
\<close>

datatype error =
    IndexError | KeyError | TypeError | ValueError | ZeroDivisionError
  | RuntimeError | FileNotFoundError

text \<open>\<^verbatim>\<open>xs[i]\<close> on a Python list: a negative index counts from the end.\<close>

definition py_index :: "'a list \<Rightarrow> int \<Rightarrow> error + 'a" where
  "py_index xs i =
     (if 0 \<le> i \<and> i < int (length xs) then Inr (xs ! nat i)
      else if i < 0 \<and> - int (length xs) \<le> i then Inr (xs ! nat (int (length xs) + i))
      else Inl IndexError)"

section \<open>Waveform loader\<close>

text \<open>
  A numpy array of dimension 0, 1 or 2. \<open>Arr2 c rows\<close> has shape
  \<open>(length rows, c)\<close>: every row holds \<open>c\<close> values. The decoder
  (\<^verbatim>\<open>torchaudio.load\<close>) is a parameter; it returns frames by channels, with at
  least one channel.
\<close>

datatype ndarray = Arr0 real | Arr1 "real list" | Arr2 nat "real list list"

text \<open>\<^verbatim>\<open>sound.squeeze()\<close> removes every axis of length one.\<close>

definition np_squeeze :: "ndarray \<Rightarrow> ndarray" where
  "np_squeeze a =
     (case a of
        Arr2 c rows \<Rightarrow>
          (if c = 1 \<or> length rows = 1
           then (case concat rows of [x] \<Rightarrow> Arr0 x | xs \<Rightarrow> Arr1 xs)
           else a)
      | Arr1 xs \<Rightarrow> (case xs of [x] \<Rightarrow> Arr0 x | _ \<Rightarrow> a)
      | Arr0 x \<Rightarrow> a)"

text \<open>\<^verbatim>\<open>sound.mean(axis=1)\<close>: the average over the channels of every frame.\<close>

definition np_mean_axis1 :: "ndarray \<Rightarrow> error + ndarray" where
  "np_mean_axis1 a =
     (case a of
        Arr2 c rows \<Rightarrow> Inr (Arr1 (map (\<lambda>row. sum_list row / real c) rows))
      | _ \<Rightarrow> Inl ValueError)"

text \<open>Lines 22 to 26 of \<^verbatim>\<open>load_audio\<close>: the collapse to one channel.\<close>

definition mono :: "ndarray \<Rightarrow> error + ndarray" where
  "mono sound =
     (case sound of
        Arr2 c rows \<Rightarrow> if c = 1 then Inr (np_squeeze sound) else np_mean_axis1 sound
      | _ \<Rightarrow> Inr sound)"

text \<open>
  \<^verbatim>\<open>for _ in range(int(repeats)): sound = np.concatenate((sound, appendage))\<close>
\<close>

primrec repeat_concat :: "nat \<Rightarrow> 'a list \<Rightarrow> 'a list \<Rightarrow> 'a list" where
  "repeat_concat 0 sound appendage = sound"
| "repeat_concat (Suc n) sound appendage = repeat_concat n (sound @ appendage) appendage"

text \<open>
  Lines 28 to 33, along the leading axis. \<^verbatim>\<open>(audio_truncation - L) / float(L)\<close>
  raises \<^verbatim>\<open>ZeroDivisionError\<close> when the source is empty.
\<close>

definition force_length :: "'a list \<Rightarrow> int \<Rightarrow> error + 'a list" where
  "force_length sound audio_truncation =
     (let L = int (length sound) in
      if audio_truncation > L then
        (if L = 0 then Inl ZeroDivisionError
         else
           (let repeats = \<lceil>real_of_int (audio_truncation - L) / real_of_int L\<rceil>
            in Inr (take (nat audio_truncation) (repeat_concat (nat repeats) sound sound))))
      else Inr (take (nat audio_truncation) sound))"

text \<open>
  \<^verbatim>\<open>load_audio(path, audio_truncation=-1)\<close>. A 0-dimensional array has no
  \<^verbatim>\<open>shape[0]\<close>: the length test raises \<^verbatim>\<open>IndexError\<close>.
\<close>

definition load_audio :: "(string \<Rightarrow> error + ndarray) \<Rightarrow> string \<Rightarrow> int \<Rightarrow> error + ndarray" where
  "load_audio torchaudio_load path audio_truncation =
     (case torchaudio_load path of
        Inl e \<Rightarrow> Inl e
      | Inr raw \<Rightarrow>
          (case mono raw of
             Inl e \<Rightarrow> Inl e
           | Inr sound \<Rightarrow>
               if audio_truncation > 0 then
                 (case sound of
                    Arr0 x \<Rightarrow> Inl IndexError
                  | Arr1 xs \<Rightarrow> map_sum id Arr1 (force_length xs audio_truncation)
                  | Arr2 c rows \<Rightarrow> map_sum id (Arr2 c) (force_length rows audio_truncation))
               else Inr sound))"

section \<open>Spectrogram parser construction\<close>

text \<open>The values an audio configuration dictionary holds.\<close>

datatype pyval =
    PNone | PBool bool | PInt int | PFloat real | PStr string | PTuple "pyval list"

datatype window = hamming | hann | blackman | bartlett

text \<open>\<^verbatim>\<open>d[k]\<close> and \<^verbatim>\<open>d.get(k)\<close> on a dictionary.\<close>

definition dict_getitem :: "(string \<rightharpoonup> pyval) \<Rightarrow> string \<Rightarrow> error + pyval" where
  "dict_getitem d k = (case d k of None \<Rightarrow> Inl KeyError | Some v \<Rightarrow> Inr v)"

definition dict_get :: "(string \<rightharpoonup> pyval) \<Rightarrow> string \<Rightarrow> pyval" where
  "dict_get d k = (case d k of None \<Rightarrow> PNone | Some v \<Rightarrow> v)"

definition windows :: "string \<rightharpoonup> window" where
  "windows =
     [''hamming'' \<mapsto> hamming, ''hann'' \<mapsto> hann, ''blackman'' \<mapsto> blackman,
      ''bartlett'' \<mapsto> bartlett]"

text \<open>\<^verbatim>\<open>windows.get(name, windows['hamming'])\<close>\<close>

definition windows_get :: "pyval \<Rightarrow> window" where
  "windows_get name =
     (case name of
        PStr s \<Rightarrow> (case windows s of Some w \<Rightarrow> w | None \<Rightarrow> hamming)
      | _ \<Rightarrow> hamming)"

record noise_injection =
  noise_paths :: "string list option"
  noise_levels :: pyval

text \<open>
  \<^verbatim>\<open>NoiseInjection.__init__(self, path=None, noise_levels=(0, 0.5))\<close>, called with
  the list \<open>args\<close> of positional arguments: more than two are a \<^verbatim>\<open>TypeError\<close>.
  \<^verbatim>\<open>self.paths\<close> (the field \<open>noise_paths\<close>) is \<^verbatim>\<open>False\<close> (here \<open>None\<close>) when no path is given, and
  the files found under the path otherwise.
\<close>

definition NoiseInjection_init ::
  "(pyval \<Rightarrow> error + string list) \<Rightarrow> pyval list \<Rightarrow> error + noise_injection" where
  "NoiseInjection_init find_files args =
     (if length args > 2 then Inl TypeError
      else
        (let path = (case args of [] \<Rightarrow> PNone | p # _ \<Rightarrow> p);
             levels = (case args of [_, l] \<Rightarrow> l | _ \<Rightarrow> PTuple [PInt 0, PFloat 0.5])
         in if path = PNone then Inr \<lparr>noise_paths = None, noise_levels = levels\<rparr>
            else (case find_files path of
                    Inl e \<Rightarrow> Inl e
                  | Inr fs \<Rightarrow> Inr \<lparr>noise_paths = Some fs, noise_levels = levels\<rparr>)))"

record spectrogram_parser =
  window_stride :: pyval
  window_size :: pyval
  sample_rate :: pyval
  window :: window
  normalize :: bool
  augment :: bool
  noiseInjector :: "noise_injection option"
  noise_prob :: pyval
  force_frames :: int

text \<open>\<^verbatim>\<open>int(force_duration * sample_rate)\<close>: the product truncated towards zero.\<close>

definition py_number :: "pyval \<Rightarrow> error + real" where
  "py_number v =
     (case v of
        PInt i \<Rightarrow> Inr (real_of_int i)
      | PFloat x \<Rightarrow> Inr x
      | PBool b \<Rightarrow> Inr (if b then 1 else 0)
      | _ \<Rightarrow> Inl TypeError)"

definition py_int :: "real \<Rightarrow> int" where
  "py_int x = (if 0 \<le> x then \<lfloor>x\<rfloor> else \<lceil>x\<rceil>)"

text \<open>
  \<^verbatim>\<open>SpectrogramParser.__init__(self, audio_conf, normalize, augment, force_duration)\<close>.
  The statements run in the order of the source, each of them able to raise. With a noise
  directory configured the injector is built from three positional arguments: the
  directory, the sample rate and the noise levels.
\<close>

definition SpectrogramParser_init ::
  "(pyval \<Rightarrow> error + string list) \<Rightarrow> (string \<rightharpoonup> pyval) \<Rightarrow> bool \<Rightarrow> bool \<Rightarrow> real
     \<Rightarrow> error + spectrogram_parser" where
  "SpectrogramParser_init find_files audio_conf normalize_arg augment_arg force_duration =
     (case dict_getitem audio_conf ''window_stride'' of Inl e \<Rightarrow> Inl e | Inr stride \<Rightarrow>
      case dict_getitem audio_conf ''window_size'' of Inl e \<Rightarrow> Inl e | Inr wsize \<Rightarrow>
      case dict_getitem audio_conf ''sample_rate'' of Inl e \<Rightarrow> Inl e | Inr rate \<Rightarrow>
      case dict_getitem audio_conf ''window'' of Inl e \<Rightarrow> Inl e | Inr wname \<Rightarrow>
      case (if dict_get audio_conf ''noise_dir'' \<noteq> PNone
            then (case dict_getitem audio_conf ''noise_dir'' of Inl e \<Rightarrow> Inl e | Inr dir \<Rightarrow>
                  case dict_getitem audio_conf ''noise_levels'' of Inl e \<Rightarrow> Inl e | Inr levels \<Rightarrow>
                  map_sum id Some (NoiseInjection_init find_files [dir, rate, levels]))
            else Inr None)
      of Inl e \<Rightarrow> Inl e | Inr injector \<Rightarrow>
      case py_number rate of Inl e \<Rightarrow> Inl e | Inr r \<Rightarrow>
        Inr \<lparr>window_stride = stride, window_size = wsize, sample_rate = rate,
             window = windows_get wname, normalize = normalize_arg, augment = augment_arg,
             noiseInjector = injector, noise_prob = dict_get audio_conf ''noise_prob'',
             force_frames = py_int (force_duration * r)\<rparr>)"

section \<open>Binary floating point\<close>

text \<open>
  A Python float is a binary64 number and an element of a \<^verbatim>\<open>torch.FloatTensor\<close> is a
  binary32 number: the result of an operation is the exact result rounded to 53 or to 24
  significant binary digits, to the nearest such number and, in a tie, to the one whose
  last digit is even. The numbers of this program lie far inside the exponent range of
  both formats (a tensor size is below \<open>2\<^sup>6\<^sup>3\<close>), so exponents are not bounded here.
\<close>

text \<open>The number of binary digits of \<open>n\<close>.\<close>

fun bit_length :: "nat \<Rightarrow> nat" where
  "bit_length n = (if n = 0 then 0 else 1 + bit_length (n div 2))"

declare bit_length.simps [simp del]

text \<open>The integer nearest to \<open>a / b\<close>, the even one in a tie.\<close>

definition round_half_even :: "nat \<Rightarrow> nat \<Rightarrow> nat" where
  "round_half_even a b =
     (let q = a div b; r = a mod b
      in if 2 * r < b \<or> (2 * r = b \<and> even q) then q else q + 1)"

text \<open>
  \<open>n\<close> rounded to \<open>p\<close> significant binary digits: \<^verbatim>\<open>float(n)\<close> for \<open>p = 53\<close>.
\<close>

definition round_digits :: "nat \<Rightarrow> nat \<Rightarrow> nat" where
  "round_digits p n = (let k = bit_length n - p in round_half_even n (2 ^ k) * 2 ^ k)"

text \<open>
  The quotient \<open>a / b\<close> rounded to \<open>p\<close> significant binary digits, as a numerator and a
  denominator that is a power of two. The quotient is scaled by \<open>2\<^sup>s\<close> into the range
  from \<open>2\<^sup>p\<^sup>-\<^sup>1\<close> up to \<open>2\<^sup>p\<close> and rounded to an integer there.
\<close>

definition float_quotient :: "nat \<Rightarrow> nat \<Rightarrow> nat \<Rightarrow> nat \<times> nat" where
  "float_quotient p a b =
     (if a = 0 then (0, 1)
      else
        (let s0 = int p + int (bit_length b) - int (bit_length a);
             s = (if b * 2 ^ nat (- s0) * 2 ^ p \<le> a * 2 ^ nat s0 then s0 - 1 else s0);
             m = round_half_even (a * 2 ^ nat s) (b * 2 ^ nat (- s))
         in (m * 2 ^ nat (- s), 2 ^ nat s)))"

text \<open>
  \<^verbatim>\<open>a / float(b)\<close> for integers \<open>a\<close> and \<open>b \<noteq> 0\<close>: both are converted to binary64 and
  the quotient is a binary64 number.
\<close>

definition float64_div :: "nat \<Rightarrow> nat \<Rightarrow> nat \<times> nat" where
  "float64_div a b = float_quotient 53 (round_digits 53 a) (round_digits 53 b)"

text \<open>
  The value an element of a \<^verbatim>\<open>torch.FloatTensor\<close> holds after a binary64 number is
  assigned to it.
\<close>

definition float32_store :: "nat \<times> nat \<Rightarrow> real" where
  "float32_store x = (case float_quotient 24 (fst x) (snd x) of (n, d) \<Rightarrow> real n / real d)"

text \<open>
  The running \<^verbatim>\<open>timeout\<close> of the consumer below starts at 0 and grows by the float
  \<^verbatim>\<open>0.01\<close>, which is \<open>5764607523034235 / 2\<^sup>5\<^sup>9\<close>. Every value it takes is a multiple
  of \<open>2\<^sup>-\<^sup>5\<^sup>9\<close> and is stored as that multiple; so is the bound 5 of the loop.
\<close>

definition hundredth :: nat where
  "hundredth = 5764607523034235"

definition five :: nat where
  "five = 5 * 2 ^ 59"

definition float64_add :: "nat \<Rightarrow> nat \<Rightarrow> nat" where
  "float64_add a b = round_digits 53 (a + b)"

section \<open>Metadata buffer consumer\<close>

text \<open>
  \<^verbatim>\<open>AudioDataLoader.pop_meta_buffer\<close>. The buffer is filled by the collation, which
  runs while the consumer sleeps: \<open>producer k\<close> are the records appended during sleep
  number \<open>k\<close>. Every sleep lasts 10 ms, so the number of sleeps measures the wait.
  \<^verbatim>\<open>timeout += 0.01\<close> is a binary64 addition.
\<close>

function poll :: "(nat \<Rightarrow> 'r list) \<Rightarrow> nat \<Rightarrow> nat \<Rightarrow> 'r list \<Rightarrow> nat \<times> 'r list" where
  "poll producer k timeout meta_buffer =
     (if length meta_buffer = 0 \<and> timeout < five
      then poll producer (Suc k) (float64_add timeout hundredth) (meta_buffer @ producer k)
      else (k, meta_buffer))"
  by pat_completeness auto
termination
proof (relation "measure (\<lambda>(producer, k, timeout, meta_buffer). five - timeout)")
  show "wf (measure (\<lambda>(producer :: nat \<Rightarrow> 'a list, k :: nat, timeout :: nat,
                       meta_buffer :: 'a list). five - timeout))"
    by simp
next
  fix producer :: "nat \<Rightarrow> 'a list" and k :: nat and timeout :: nat
    and meta_buffer :: "'a list"
  assume "length meta_buffer = 0 \<and> timeout < five"
  then have t: "timeout < five" by simp
  have digits: "bit_length n \<le> m" if "n < 2 ^ m" for n m
    using that
  proof (induction m arbitrary: n)
    case 0
    then show ?case by (simp add: bit_length.simps)
  next
    case (Suc m)
    show ?case
    proof (cases "n = 0")
      case True
      then show ?thesis by (simp add: bit_length.simps)
    next
      case False
      have "n div 2 < 2 ^ m" using Suc.prems by simp
      then have "bit_length (n div 2) \<le> m" by (rule Suc.IH)
      then show ?thesis using False by (subst bit_length.simps) simp
    qed
  qed
  define s where "s = timeout + hundredth"
  define e where "e = bit_length s - 53"
  have "s < 2 ^ 63" using t by (simp add: s_def five_def hundredth_def)
  then have "bit_length s \<le> 63" by (rule digits)
  then have "e \<le> 10" by (simp add: e_def)
  then have "(2::nat) ^ e \<le> 2 ^ 10" by (intro power_increasing) simp_all
  then have small: "(2::nat) ^ e < hundredth" by (simp add: hundredth_def)
  have "s div 2 ^ e \<le> round_half_even s (2 ^ e)"
    by (simp add: round_half_even_def Let_def)
  then have "s div 2 ^ e * 2 ^ e \<le> round_digits 53 s"
    by (simp add: round_digits_def e_def Let_def)
  moreover have "s mod 2 ^ e < 2 ^ e" by simp
  then have "s < s div 2 ^ e * 2 ^ e + 2 ^ e"
    using div_mult_mod_eq [of s "2 ^ e"] by linarith
  ultimately have "timeout < round_digits 53 s"
    using small by (simp add: s_def)
  then have "five - float64_add timeout hundredth < five - timeout"
    using t by (simp add: float64_add_def s_def)
  then show "((producer, Suc k, float64_add timeout hundredth, meta_buffer @ producer k),
              producer, k, timeout, meta_buffer)
             \<in> measure (\<lambda>(producer, k, timeout, meta_buffer). five - timeout)"
    by (simp only: in_measure prod.case)
qed

text \<open>The value of \<^verbatim>\<open>timeout\<close> after \<open>k\<close> sleeps.\<close>

primrec timeout_after :: "nat \<Rightarrow> nat" where
  "timeout_after 0 = 0"
| "timeout_after (Suc k) = float64_add (timeout_after k) hundredth"

text \<open>
  The result of the call, the number of sleeps it made and the buffer it leaves. Removing
  from an empty list (\<^verbatim>\<open>[].pop(0)\<close>) raises \<^verbatim>\<open>IndexError\<close>.
\<close>

definition pop_meta_buffer ::
  "(nat \<Rightarrow> 'r list) \<Rightarrow> 'r list \<Rightarrow> (error + 'r) \<times> nat \<times> 'r list" where
  "pop_meta_buffer producer meta_buffer =
     (case poll producer 0 0 meta_buffer of
        (sleeps, buf) \<Rightarrow>
          (case buf of
             [] \<Rightarrow> (Inl IndexError, sleeps, buf)
           | r # rest \<Rightarrow> (Inr r, sleeps, rest)))"

section \<open>Transcript parsing\<close>

text \<open>
  \<^verbatim>\<open>self.labels_map = dict([(labels[i], i) for i in range(len(labels))])\<close>:
  a later pair overrides an earlier one with the same key.
\<close>

definition make_labels_map :: "string \<Rightarrow> (char \<rightharpoonup> int)" where
  "make_labels_map labels = map_of (rev (zip labels (map int [0..<length labels])))"

text \<open>
  \<^verbatim>\<open>list(filter(None, vs))\<close> keeps the truthy elements of \<open>vs\<close>. The elements
  here are the results of \<^verbatim>\<open>dict.get\<close>: \<^verbatim>\<open>None\<close> is falsy, and so is the integer 0.
\<close>

definition py_filter_None :: "int option list \<Rightarrow> int list" where
  "py_filter_None vs = [i. Some i \<leftarrow> vs, i \<noteq> 0]"

text \<open>
  \<^verbatim>\<open>SpectrogramDataset.parse_transcript\<close>. The file system is a map from paths to
  file contents; \<open>lmap\<close> is \<^verbatim>\<open>self.labels_map\<close>.
\<close>

definition parse_transcript ::
  "(string \<rightharpoonup> string) \<Rightarrow> (char \<rightharpoonup> int) \<Rightarrow> string \<Rightarrow> error + int list" where
  "parse_transcript files lmap transcript_path =
     (case files transcript_path of
        None \<Rightarrow> Inl FileNotFoundError
      | Some text \<Rightarrow>
          (let transcript = filter (\<lambda>c. c \<noteq> CHR 0x0A) text
           in Inr (py_filter_None (map lmap transcript))))"

section \<open>Tensors\<close>

text \<open>
  A tensor is its shape and its elements by index; only the elements inside the shape
  are meaningful. Feature tensors are \<open>frequency_bins\<close> by \<open>time_frames\<close>.
\<close>

datatype 'a tensor2 = Tensor2 (size0: nat) (size1: nat) (at2: "nat \<Rightarrow> nat \<Rightarrow> 'a")

datatype 'a tensor3 =
  Tensor3 (dim0: nat) (dim1: nat) (dim2: nat) (at3: "nat \<Rightarrow> nat \<Rightarrow> nat \<Rightarrow> 'a")

datatype 'a tensor4 =
  Tensor4 (len0: nat) (len1: nat) (len2: nat) (len3: nat)
    (at4: "nat \<Rightarrow> nat \<Rightarrow> nat \<Rightarrow> nat \<Rightarrow> 'a")

text \<open>A float of the auxiliary tensors: negative infinity or another value.\<close>

datatype xfloat = NegInf | Finite real

text \<open>\<^verbatim>\<open>torch.zeros(n, c, f, t)\<close>\<close>

definition zeros :: "nat \<Rightarrow> nat \<Rightarrow> nat \<Rightarrow> nat \<Rightarrow> real tensor4" where
  "zeros n c f t = Tensor4 n c f t (\<lambda>a b i j. 0)"

text \<open>
  \<^verbatim>\<open>inputs[x][0].narrow(1, 0, seq_length).copy_(tensor)\<close> with
  \<^verbatim>\<open>seq_length = tensor.size(1)\<close>. The destination is the view of row \<open>x\<close>, channel 0,
  columns below \<open>seq_length\<close>; \<^verbatim>\<open>copy_\<close> needs a source that broadcasts to it, so a
  source with another number of frequency bins is refused unless it has one bin.
\<close>

definition copy_feature :: "real tensor4 \<Rightarrow> nat \<Rightarrow> real tensor2 \<Rightarrow> error + real tensor4" where
  "copy_feature inputs x tensor =
     (let seq_length = size1 tensor in
      if \<not> (x < len0 inputs \<and> 0 < len1 inputs) then Inl IndexError
      else if len3 inputs < seq_length then Inl RuntimeError
      else if size0 tensor \<noteq> len2 inputs \<and> size0 tensor \<noteq> 1 then Inl RuntimeError
      else Inr (Tensor4 (len0 inputs) (len1 inputs) (len2 inputs) (len3 inputs)
                 (\<lambda>a c i j.
                    if a = x \<and> c = 0 \<and> i < len2 inputs \<and> j < seq_length
                    then at2 tensor (if size0 tensor = 1 then 0 else i) j
                    else at4 inputs a c i j)))"

text \<open>
  \<^verbatim>\<open>logits[x, :logit.size(0)].copy_(logit)\<close>: the destination is the leading rows of
  entry \<open>x\<close>, and the source must broadcast to it.
\<close>

definition copy_logit :: "xfloat tensor3 \<Rightarrow> nat \<Rightarrow> xfloat tensor2 \<Rightarrow> error + xfloat tensor3" where
  "copy_logit logits x logit =
     (let rows = min (size0 logit) (dim1 logits) in
      if \<not> x < dim0 logits then Inl IndexError
      else if size0 logit \<noteq> rows \<and> size0 logit \<noteq> 1 then Inl RuntimeError
      else if size1 logit \<noteq> dim2 logits \<and> size1 logit \<noteq> 1 then Inl RuntimeError
      else Inr (Tensor3 (dim0 logits) (dim1 logits) (dim2 logits)
                 (\<lambda>a i j.
                    if a = x \<and> i < rows \<and> j < dim2 logits
                    then at2 logit (if size0 logit = 1 then 0 else i)
                                   (if size1 logit = 1 then 0 else j)
                    else at3 logits a i j)))"

section \<open>Batch collation\<close>

text \<open>
  \<^verbatim>\<open>max(batch, key=func)\<close>: the first element whose key is largest; an empty batch
  raises \<^verbatim>\<open>ValueError\<close>.
\<close>

primrec max_by :: "('s \<Rightarrow> nat) \<Rightarrow> 's \<Rightarrow> 's list \<Rightarrow> 's" where
  "max_by key best [] = best"
| "max_by key best (s # ss) = max_by key (if key best < key s then s else best) ss"

definition py_max :: "('s \<Rightarrow> nat) \<Rightarrow> 's list \<Rightarrow> error + 's" where
  "py_max key batch = (case batch of [] \<Rightarrow> Inl ValueError | s # ss \<Rightarrow> Inr (max_by key s ss))"

text \<open>
  The locals every collation variant builds. \<^verbatim>\<open>torch.FloatTensor(n)\<close> and
  \<^verbatim>\<open>torch.IntTensor(n)\<close> are allocated uninitialised and every entry is assigned in
  the loop; they start at 0 here. An element of the first holds a binary32 number; the
  label counts of the second are stored as integers.
\<close>

record collated =
  inputs :: "real tensor4"
  input_percentages :: "real list"
  target_sizes :: "int list"
  targets :: "int list"

definition collated_init :: "nat \<Rightarrow> nat \<Rightarrow> nat \<Rightarrow> collated" where
  "collated_init minibatch_size freq_size max_seqlength =
     \<lparr>inputs = zeros minibatch_size 1 freq_size max_seqlength,
      input_percentages = replicate minibatch_size 0,
      target_sizes = replicate minibatch_size 0,
      targets = []\<rparr>"

text \<open>
  The five statements every loop body shares (lines 295 to 299 of \<^verbatim>\<open>_collate_fn\<close>):
  copy the feature, record the valid fraction and the label count, extend the targets.
  \<^verbatim>\<open>seq_length / float(max_seqlength)\<close> raises \<^verbatim>\<open>ZeroDivisionError\<close> when the
  longest sample has no frame; otherwise the binary64 quotient is stored in the binary32
  tensor \<^verbatim>\<open>input_percentages\<close>.
\<close>

definition collate_item ::
  "real tensor2 \<Rightarrow> int list \<Rightarrow> nat \<Rightarrow> nat \<Rightarrow> collated \<Rightarrow> error + collated" where
  "collate_item tensor target max_seqlength x st =
     (let seq_length = size1 tensor in
      case copy_feature (inputs st) x tensor of
        Inl e \<Rightarrow> Inl e
      | Inr inputs' \<Rightarrow>
          if max_seqlength = 0 then Inl ZeroDivisionError
          else Inr \<lparr>inputs = inputs',
                    input_percentages =
                      (input_percentages st)[x := float32_store (float64_div seq_length max_seqlength)],
                    target_sizes = (target_sizes st)[x := int (length target)],
                    targets = targets st @ target\<rparr>)"

text \<open>\<^verbatim>\<open>_collate_fn\<close>: the loop over \<^verbatim>\<open>range(minibatch_size)\<close>, then the function.\<close>

fun collate_loop ::
  "(real tensor2 \<times> int list) list \<Rightarrow> nat \<Rightarrow> nat list \<Rightarrow> collated \<Rightarrow> error + collated" where
  "collate_loop batch m [] st = Inr st"
| "collate_loop batch m (x # xs) st =
     (case batch ! x of
        (tensor, target) \<Rightarrow>
          (case collate_item tensor target m x st of
             Inl e \<Rightarrow> Inl e
           | Inr st' \<Rightarrow> collate_loop batch m xs st'))"

definition collate_fn ::
  "(real tensor2 \<times> int list) list
     \<Rightarrow> error + (real tensor4 \<times> int list \<times> real list \<times> int list)" where
  "collate_fn batch =
     (case py_max (\<lambda>p. size1 (fst p)) batch of
        Inl e \<Rightarrow> Inl e
      | Inr longest \<Rightarrow>
          (let longest_sample = fst longest;
               freq_size = size0 longest_sample;
               minibatch_size = length batch;
               max_seqlength = size1 longest_sample
           in case collate_loop batch max_seqlength [0..<minibatch_size]
                     (collated_init minibatch_size freq_size max_seqlength) of
                Inl e \<Rightarrow> Inl e
              | Inr st \<Rightarrow> Inr (inputs st, targets st, input_percentages st, target_sizes st)))"

text \<open>\<^verbatim>\<open>_collate_fn_paths\<close>: the sixth component of the result is \<^verbatim>\<open>None\<close>.\<close>

fun collate_loop_paths ::
  "(real tensor2 \<times> int list \<times> string) list \<Rightarrow> nat \<Rightarrow> nat list \<Rightarrow> collated \<times> string list
     \<Rightarrow> error + collated \<times> string list" where
  "collate_loop_paths batch m [] acc = Inr acc"
| "collate_loop_paths batch m (x # xs) (st, paths) =
     (case batch ! x of
        (tensor, target, path) \<Rightarrow>
          (case collate_item tensor target m x st of
             Inl e \<Rightarrow> Inl e
           | Inr st' \<Rightarrow> collate_loop_paths batch m xs (st', paths @ [path])))"

definition collate_fn_paths ::
  "(real tensor2 \<times> int list \<times> string) list
     \<Rightarrow> error + (real tensor4 \<times> int list \<times> real list \<times> int list \<times> string list
                 \<times> xfloat tensor3 option)" where
  "collate_fn_paths batch =
     (case py_max (\<lambda>p. size1 (fst p)) batch of
        Inl e \<Rightarrow> Inl e
      | Inr longest \<Rightarrow>
          (let longest_sample = fst longest;
               freq_size = size0 longest_sample;
               minibatch_size = length batch;
               max_seqlength = size1 longest_sample
           in case collate_loop_paths batch max_seqlength [0..<minibatch_size]
                     (collated_init minibatch_size freq_size max_seqlength, []) of
                Inl e \<Rightarrow> Inl e
              | Inr (st, paths) \<Rightarrow>
                  Inr (inputs st, targets st, input_percentages st, target_sizes st, paths,
                       None)))"

text \<open>
  \<^verbatim>\<open>_collate_fn_logits\<close>: the auxiliary tensor is allocated with the longest auxiliary
  length of the batch and the class count of the first sample, filled with negative
  infinity, and every sample's auxiliary tensor is copied over its leading rows.
\<close>

fun collate_loop_logits ::
  "(real tensor2 \<times> int list \<times> string \<times> xfloat tensor2) list \<Rightarrow> nat \<Rightarrow> nat list
     \<Rightarrow> collated \<times> string list \<times> xfloat tensor3
     \<Rightarrow> error + collated \<times> string list \<times> xfloat tensor3" where
  "collate_loop_logits batch m [] acc = Inr acc"
| "collate_loop_logits batch m (x # xs) (st, paths, logits) =
     (case batch ! x of
        (tensor, target, path, logit) \<Rightarrow>
          (case collate_item tensor target m x st of
             Inl e \<Rightarrow> Inl e
           | Inr st' \<Rightarrow>
               (case copy_logit logits x logit of
                  Inl e \<Rightarrow> Inl e
                | Inr logits' \<Rightarrow>
                    collate_loop_logits batch m xs (st', paths @ [path], logits'))))"

definition collate_fn_logits ::
  "(real tensor2 \<times> int list \<times> string \<times> xfloat tensor2) list
     \<Rightarrow> error + (real tensor4 \<times> int list \<times> real list \<times> int list \<times> string list
                 \<times> xfloat tensor3)" where
  "collate_fn_logits batch =
     (case py_max (\<lambda>p. size1 (fst p)) batch of
        Inl e \<Rightarrow> Inl e
      | Inr longest \<Rightarrow>
          (let longest_sample = fst longest;
               freq_size = size0 longest_sample;
               minibatch_size = length batch;
               max_seqlength = size1 longest_sample
           in case py_max (\<lambda>p. size0 (snd (snd (snd p)))) batch of
                Inl e \<Rightarrow> Inl e
              | Inr longest_l \<Rightarrow>
                  (let longest_logit = snd (snd (snd longest_l));
                       logit_len = size0 longest_logit;
                       nclasses = size1 (snd (snd (snd (batch ! 0))));
                       logits = Tensor3 minibatch_size logit_len nclasses (\<lambda>a i j. NegInf)
                   in case collate_loop_logits batch max_seqlength [0..<minibatch_size]
                             (collated_init minibatch_size freq_size max_seqlength, [], logits) of
                        Inl e \<Rightarrow> Inl e
                      | Inr (st, paths, logits') \<Rightarrow>
                          Inr (inputs st, targets st, input_percentages st, target_sizes st,
                               paths, logits'))))"

section \<open>Sample provider\<close>

text \<open>
  What lies outside the program: the transcript files, the sizes of the audio files in
  bytes (\<^verbatim>\<open>os.path.getsize\<close>), the duration probe (\<^verbatim>\<open>sox.file_info.duration\<close>),
  the outcome of \<^verbatim>\<open>parse_audio\<close> on an audio path, and the auxiliary tensor stored for
  an audio path (\<^verbatim>\<open>torch.load\<close> of the file under the sibling \<^verbatim>\<open>logits\<close> directory).
\<close>

datatype mval = MStr string | MFloat real | MInt int | MNone

record world =
  file_text :: "string \<rightharpoonup> string"
  file_bytes :: "string \<rightharpoonup> nat"
  sox_duration :: "string \<Rightarrow> error + mval"
  parse_audio :: "string \<Rightarrow> error + real tensor2"
  load_logits :: "string \<Rightarrow> error + xfloat tensor2"

text \<open>
  The fields of a \<^verbatim>\<open>SpectrogramDataset\<close> the operations below use: the manifest lines
  split at commas, the access history and the label vocabulary.
\<close>

record dataset =
  ids :: "string list list"
  access_history :: "int list"
  labels_map :: "char \<rightharpoonup> int"

text \<open>
  \<^verbatim>\<open>SpectrogramDataset.__getitem__\<close>: the index is appended to the access history as
  soon as the manifest entry is found, before the audio and the transcript are parsed. The
  result is paired with the dataset after the call, also when the call raises.
\<close>

definition SpectrogramDataset_getitem ::
  "world \<Rightarrow> dataset \<Rightarrow> int \<Rightarrow> (error + real tensor2 \<times> int list) \<times> dataset" where
  "SpectrogramDataset_getitem w ds index =
     (case py_index (ids ds) index of
        Inl e \<Rightarrow> (Inl e, ds)
      | Inr sample \<Rightarrow>
          (let ds' = ds\<lparr>access_history := access_history ds @ [index]\<rparr>
           in (case py_index sample 0 of Inl e \<Rightarrow> Inl e | Inr audio_path \<Rightarrow>
               case py_index sample 1 of Inl e \<Rightarrow> Inl e | Inr transcript_path \<Rightarrow>
               case parse_audio w audio_path of Inl e \<Rightarrow> Inl e | Inr spect \<Rightarrow>
               case parse_transcript (file_text w) (labels_map ds') transcript_path of
                 Inl e \<Rightarrow> Inl e
               | Inr transcript \<Rightarrow> Inr (spect, transcript),
               ds')))"

text \<open>
  \<^verbatim>\<open>SpectrogramAndPathDataset.__getitem__\<close> and
  \<^verbatim>\<open>SpectrogramAndLogitsDataset.__getitem__\<close> override the method; neither touches
  the access history.
\<close>

definition SpectrogramAndPathDataset_getitem ::
  "world \<Rightarrow> dataset \<Rightarrow> int \<Rightarrow> (error + real tensor2 \<times> int list \<times> string) \<times> dataset" where
  "SpectrogramAndPathDataset_getitem w ds index =
     (case py_index (ids ds) index of Inl e \<Rightarrow> Inl e | Inr sample \<Rightarrow>
      case py_index sample 0 of Inl e \<Rightarrow> Inl e | Inr audio_path \<Rightarrow>
      case py_index sample 1 of Inl e \<Rightarrow> Inl e | Inr transcript_path \<Rightarrow>
      case parse_audio w audio_path of Inl e \<Rightarrow> Inl e | Inr spect \<Rightarrow>
      case parse_transcript (file_text w) (labels_map ds) transcript_path of
        Inl e \<Rightarrow> Inl e
      | Inr transcript \<Rightarrow> Inr (spect, transcript, audio_path),
      ds)"

definition SpectrogramAndLogitsDataset_getitem ::
  "world \<Rightarrow> dataset \<Rightarrow> int
     \<Rightarrow> (error + real tensor2 \<times> int list \<times> string \<times> xfloat tensor2) \<times> dataset" where
  "SpectrogramAndLogitsDataset_getitem w ds index =
     (case py_index (ids ds) index of Inl e \<Rightarrow> Inl e | Inr sample \<Rightarrow>
      case py_index sample 0 of Inl e \<Rightarrow> Inl e | Inr audio_path \<Rightarrow>
      case py_index sample 1 of Inl e \<Rightarrow> Inl e | Inr transcript_path \<Rightarrow>
      case parse_audio w audio_path of Inl e \<Rightarrow> Inl e | Inr spect \<Rightarrow>
      case parse_transcript (file_text w) (labels_map ds) transcript_path of
        Inl e \<Rightarrow> Inl e
      | Inr transcript \<Rightarrow>
      case load_logits w audio_path of Inl e \<Rightarrow> Inl e | Inr logits \<Rightarrow>
        Inr (spect, transcript, audio_path, logits),
      ds)"

text \<open>\<^verbatim>\<open>SpectrogramDataset.get_meta\<close>: the four fields of the returned tuple.\<close>

definition get_meta :: "world \<Rightarrow> dataset \<Rightarrow> int \<Rightarrow> error + mval list" where
  "get_meta w ds index =
     (case py_index (ids ds) index of Inl e \<Rightarrow> Inl e | Inr sample \<Rightarrow>
      case py_index sample 0 of Inl e \<Rightarrow> Inl e | Inr audio_path \<Rightarrow>
      case py_index sample 1 of Inl e \<Rightarrow> Inl e | Inr transcript_path \<Rightarrow>
      case sox_duration w audio_path of Inl e \<Rightarrow> Inl e | Inr audio_dur \<Rightarrow>
      case file_bytes w audio_path of None \<Rightarrow> Inl FileNotFoundError | Some n \<Rightarrow>
        Inr [MStr audio_path, MStr transcript_path, audio_dur, MFloat (real n / 1000)])"

section \<open>Metadata pipeline\<close>

text \<open>
  The metadata lists are Python list objects, and one object can be reached under two
  names. They live in a store: \<open>heap\<close> holds the contents of every metadata list
  allocated so far, and a reference is an index into it. \<^verbatim>\<open>self.item_meta\<close> is the
  list of the references of the items, \<^verbatim>\<open>self.batch_meta\<close> is one reference, and a
  record of the buffer holds the iteration number and both.
\<close>

record meta_record =
  rec_iter :: int
  rec_item :: "nat list"
  rec_batch :: nat

record loader =
  item_meta :: "nat list"
  batch_meta :: nat
  meta_buffer :: "meta_record list"
  iter :: int
  heap :: "mval list list"
  dataset :: dataset

text \<open>\<^verbatim>\<open>a + b\<close> on metadata values.\<close>

definition py_add :: "mval \<Rightarrow> mval \<Rightarrow> error + mval" where
  "py_add a b =
     (case (a, b) of
        (MInt i, MInt j) \<Rightarrow> Inr (MInt (i + j))
      | (MFloat x, MFloat y) \<Rightarrow> Inr (MFloat (x + y))
      | (MInt i, MFloat y) \<Rightarrow> Inr (MFloat (real_of_int i + y))
      | (MFloat x, MInt j) \<Rightarrow> Inr (MFloat (x + real_of_int j))
      | (MStr s, MStr t) \<Rightarrow> Inr (MStr (s @ t))
      | _ \<Rightarrow> Inl TypeError)"

text \<open>
  \<^verbatim>\<open>for i, meta in enumerate(self.item_meta[-1]):
      if i in [2,3,4]: self.batch_meta[i] += meta\<close>
  The assignment writes into the list object \<^verbatim>\<open>self.batch_meta\<close> refers to.
\<close>

fun add_to_batch :: "(nat \<times> mval) list \<Rightarrow> loader \<Rightarrow> error + loader" where
  "add_to_batch [] L = Inr L"
| "add_to_batch ((i, meta) # rest) L =
     (if i \<in> set [2, 3, 4] then
        (case py_index (heap L ! batch_meta L) (int i) of
           Inl e \<Rightarrow> Inl e
         | Inr old \<Rightarrow>
             (case py_add old meta of
                Inl e \<Rightarrow> Inl e
              | Inr new \<Rightarrow>
                  add_to_batch rest
                    (L\<lparr>heap := (heap L)[batch_meta L := (heap L ! batch_meta L)[i := new]]\<rparr>)))
      else add_to_batch rest L)"

text \<open>
  Lines 350 to 357 of \<^verbatim>\<open>my_collate_fn\<close> for sample \<open>x\<close>: a new list object holds
  the item's metadata and its frame count; when the batch aggregate is still empty,
  \<^verbatim>\<open>self.batch_meta = self.item_meta[-1]\<close> makes it the same object.
\<close>

definition collect_meta :: "world \<Rightarrow> nat \<Rightarrow> nat \<Rightarrow> loader \<Rightarrow> error + loader" where
  "collect_meta w x seq_length L =
     (case py_index (access_history (dataset L)) (int x) of Inl e \<Rightarrow> Inl e | Inr index \<Rightarrow>
      case get_meta w (dataset L) index of Inl e \<Rightarrow> Inl e | Inr meta \<Rightarrow>
        (let r = length (heap L);
             L1 = L\<lparr>heap := heap L @ [meta], item_meta := item_meta L @ [r]\<rparr>;
             L2 = L1\<lparr>heap := (heap L1)[r := heap L1 ! r @ [MInt (int seq_length)]]\<rparr>
         in if length (heap L2 ! batch_meta L2) = 0
            then Inr (L2\<lparr>batch_meta := r\<rparr>)
            else add_to_batch (enumerate 0 (heap L2 ! r)) L2))"

fun my_collate_loop ::
  "world \<Rightarrow> (real tensor2 \<times> int list) list \<Rightarrow> nat \<Rightarrow> nat list \<Rightarrow> collated \<times> loader
     \<Rightarrow> error + collated \<times> loader" where
  "my_collate_loop w batch m [] acc = Inr acc"
| "my_collate_loop w batch m (x # xs) (st, L) =
     (case batch ! x of
        (tensor, target) \<Rightarrow>
          (case collate_item tensor target m x st of
             Inl e \<Rightarrow> Inl e
           | Inr st' \<Rightarrow>
               (case collect_meta w x (size1 tensor) L of
                  Inl e \<Rightarrow> Inl e
                | Inr L' \<Rightarrow> my_collate_loop w batch m xs (st', L'))))"

text \<open>
  \<^verbatim>\<open>AudioDataLoader.my_collate_fn\<close>: the result and the loader after the call. The
  two staging lists start as new empty lists, the record is appended to the buffer and the
  access history of the dataset is replaced by an empty list. (The line printed to the
  standard output is left out.)
\<close>

definition my_collate_fn ::
  "world \<Rightarrow> (real tensor2 \<times> int list) list \<Rightarrow> loader
     \<Rightarrow> error + (real tensor4 \<times> int list \<times> real list \<times> int list) \<times> loader" where
  "my_collate_fn w batch L =
     (case py_max (\<lambda>p. size1 (fst p)) batch of
        Inl e \<Rightarrow> Inl e
      | Inr longest \<Rightarrow>
          (let longest_sample = fst longest;
               freq_size = size0 longest_sample;
               minibatch_size = length batch;
               max_seqlength = size1 longest_sample;
               L1 = L\<lparr>item_meta := [], batch_meta := length (heap L), heap := heap L @ [[]],
                      iter := iter L + 1\<rparr>
           in case my_collate_loop w batch max_seqlength [0..<minibatch_size]
                     (collated_init minibatch_size freq_size max_seqlength, L1) of
                Inl e \<Rightarrow> Inl e
              | Inr (st, L2) \<Rightarrow>
                  (let L3 = L2\<lparr>meta_buffer := meta_buffer L2 @
                                  [\<lparr>rec_iter = iter L2, rec_item = item_meta L2,
                                    rec_batch = batch_meta L2\<rparr>]\<rparr>;
                       L4 = L3\<lparr>dataset := (dataset L3)\<lparr>access_history := []\<rparr>\<rparr>
                   in Inr ((inputs st, targets st, input_percentages st, target_sizes st),
                           L4))))"

text \<open>The contents of the item-level lists a buffer record refers to.\<close>

definition item_values :: "loader \<Rightarrow> meta_record \<Rightarrow> mval list list" where
  "item_values L r = map (\<lambda>a. heap L ! a) (rec_item r)"

definition batch_values :: "loader \<Rightarrow> meta_record \<Rightarrow> mval list" where
  "batch_values L r = heap L ! rec_batch r"

section \<open>Example inputs\<close>

text \<open>
  A configuration with a noise directory; a batch of two samples of 5 and 8 frames with
  their files; a loader that has made no batch yet, over a two-line manifest.
\<close>

definition noisy_conf :: "string \<rightharpoonup> pyval" where
  "noisy_conf =
     [''sample_rate'' \<mapsto> PInt 16000, ''window_size'' \<mapsto> PFloat 0.02,
      ''window_stride'' \<mapsto> PFloat 0.01, ''window'' \<mapsto> PStr ''hamming'',
      ''noise_dir'' \<mapsto> PStr ''noise'', ''noise_prob'' \<mapsto> PFloat 0.4,
      ''noise_levels'' \<mapsto> PTuple [PFloat 0, PFloat 0.5]]"

definition two_samples :: "(real tensor2 \<times> int list) list" where
  "two_samples =
     [(Tensor2 4 5 (\<lambda>i j. 1), [1, 2]), (Tensor2 4 8 (\<lambda>i j. 1), [3])]"

definition two_files :: world where
  "two_files =
     \<lparr>file_text = [''a.txt'' \<mapsto> ''ab'', ''b.txt'' \<mapsto> ''b''],
      file_bytes = [''a.wav'' \<mapsto> 1000, ''b.wav'' \<mapsto> 3000],
      sox_duration = (\<lambda>p. Inr (MFloat (if p = ''a.wav'' then 1 else 2))),
      parse_audio = (\<lambda>p. Inr (if p = ''a.wav'' then Tensor2 4 5 (\<lambda>i j. 1)
                                else Tensor2 4 8 (\<lambda>i j. 1))),
      load_logits = (\<lambda>p. Inl FileNotFoundError)\<rparr>"

definition fresh_loader :: "int list \<Rightarrow> loader" where
  "fresh_loader history =
     \<lparr>item_meta = [], batch_meta = 0, meta_buffer = [], iter = 0, heap = [[]],
      dataset = \<lparr>ids = [[''a.wav'', ''a.txt''], [''b.wav'', ''b.txt'']],
                 access_history = history, labels_map = make_labels_map ''_ab''\<rparr>\<rparr>"


text \<open>
  The same two samples with their paths, and with auxiliary tensors of 3 and 6 rows over
  10 classes.
\<close>

definition two_samples_paths :: "(real tensor2 \<times> int list \<times> string) list" where
  "two_samples_paths =
     [(Tensor2 4 5 (\<lambda>i j. 1), [1, 2], ''a.wav''), (Tensor2 4 8 (\<lambda>i j. 1), [3], ''b.wav'')]"

section \<open>Properties of transcript parsing\<close>

lemma py_filter_None_Cons:
  "py_filter_None (v # vs) =
     (case v of None \<Rightarrow> py_filter_None vs
      | Some i \<Rightarrow> if i = 0 then py_filter_None vs else i # py_filter_None vs)"
  by (simp add: py_filter_None_def split: option.split)

lemma py_filter_None_Nil: "py_filter_None [] = []"
  by (simp add: py_filter_None_def)

text \<open>
  What the parser keeps, for any vocabulary: the labels of the mapped characters other than
  newlines, in order, except the label 0.
\<close>

lemma parse_transcript_drops_zero:
  assumes "files p = Some text"
  shows "parse_transcript files lmap p =
     Inr (concat (map (\<lambda>c. case lmap c of None \<Rightarrow> [] | Some i \<Rightarrow> if i = 0 then [] else [i])
                      (filter (\<lambda>c. c \<noteq> CHR 0x0A) text)))"
proof -
  have "py_filter_None (map lmap cs) =
        concat (map (\<lambda>c. case lmap c of None \<Rightarrow> [] | Some i \<Rightarrow> if i = 0 then [] else [i]) cs)"
    for cs
    by (induction cs) (simp_all add: py_filter_None_Nil py_filter_None_Cons split: option.split)
  with assms show ?thesis
    by (simp add: parse_transcript_def)
qed

text \<open>
  C1. The claim: with the vocabulary \<open>{'a': 0, 'b': 1}\<close> (the alphabet \<open>ab\<close>) and a
  transcript file holding \<open>ab\<close>, a newline and \<open>a\<close>, parsing yields \<open>[0, 1, 0]\<close>, only
  unmapped characters being dropped. The code yields \<open>[1]\<close>: \<^verbatim>\<open>filter(None, ...)\<close>
  drops the label 0 together with the unmapped characters.
\<close>

theorem parse_transcript_scenario:
  "parse_transcript [''a.txt'' \<mapsto> [CHR ''a'', CHR ''b'', CHR 0x0A, CHR ''a'']]
     (make_labels_map ''ab'') ''a.txt'' = Inr [1]"
  by (simp add: parse_transcript_def make_labels_map_def py_filter_None_def)

section \<open>Properties of the waveform loader\<close>

lemma repeat_concat_eq: "repeat_concat n s a = s @ concat (replicate n a)"
  by (induction n arbitrary: s)
    (simp_all add: replicate_append_same [symmetric] del: replicate_Suc,
     simp add: replicate_append_same)

lemma length_concat_replicate: "length (concat (replicate n a)) = n * length a"
  by (induction n) simp_all

lemma nth_concat_replicate:
  "i < n * length a \<Longrightarrow> concat (replicate n a) ! i = a ! (i mod length a)"
proof (induction n arbitrary: i)
  case 0
  then show ?case by simp
next
  case (Suc n)
  show ?case
  proof (cases "i < length a")
    case True
    then show ?thesis by (simp add: nth_append)
  next
    case False
    then have "i - length a < n * length a" using Suc.prems by simp
    then have "concat (replicate n a) ! (i - length a) = a ! ((i - length a) mod length a)"
      by (rule Suc.IH)
    with False show ?thesis
      by (simp add: nth_append le_mod_geq)
  qed
qed

text \<open>The number of repetitions the loader computes reaches the target length.\<close>

lemma repeats_enough:
  fixes L T :: int
  assumes "0 < L" "L < T"
  shows "T \<le> (\<lceil>real_of_int (T - L) / real_of_int L\<rceil> + 1) * L"
proof -
  define x where "x = real_of_int (T - L) / real_of_int L"
  have Lr: "0 < real_of_int L" using assms(1) by simp
  have "x \<le> real_of_int \<lceil>x\<rceil>"
    by (rule le_of_int_ceiling)
  then have "x * real_of_int L \<le> real_of_int \<lceil>x\<rceil> * real_of_int L"
    using Lr by (simp add: mult_right_mono)
  moreover have "x * real_of_int L = real_of_int (T - L)"
    using Lr by (simp add: x_def)
  ultimately have "real_of_int (T - L) \<le> real_of_int (\<lceil>x\<rceil> * L)"
    by simp
  then have "T - L \<le> \<lceil>x\<rceil> * L"
    by (simp only: of_int_le_iff)
  then show ?thesis
    unfolding x_def by (simp add: algebra_simps)
qed

lemma force_length_tiles:
  assumes "sound \<noteq> []" "int (length sound) < T"
  shows "\<exists>r. force_length sound T = Inr r \<and> length r = nat T \<and>
             (\<forall>i < nat T. r ! i = sound ! (i mod length sound))"
proof -
  let ?L = "int (length sound)"
  define n where "n = nat \<lceil>real_of_int (T - ?L) / real_of_int ?L\<rceil>"
  define big where "big = concat (replicate (Suc n) sound)"
  have Lpos: "0 < ?L" using assms(1) by simp
  have "0 \<le> real_of_int (T - ?L) / real_of_int ?L"
    using assms(2) Lpos by simp
  then have "- 1 < real_of_int (T - ?L) / real_of_int ?L"
    by linarith
  then have nonneg: "0 \<le> \<lceil>real_of_int (T - ?L) / real_of_int ?L\<rceil>"
    by (simp only: zero_le_ceiling)
  have big: "repeat_concat n sound sound = big"
    by (simp add: repeat_concat_eq big_def)
  have "T \<le> (\<lceil>real_of_int (T - ?L) / real_of_int ?L\<rceil> + 1) * ?L"
    using Lpos assms(2) by (rule repeats_enough)
  also have "\<dots> = int (Suc n * length sound)"
    using nonneg by (simp add: algebra_simps n_def)
  finally have enough: "nat T \<le> Suc n * length sound" by linarith
  have len: "length big = Suc n * length sound"
    unfolding big_def by (rule length_concat_replicate)
  have res: "force_length sound T = Inr (take (nat T) big)"
    using assms Lpos big [unfolded n_def] by (simp add: force_length_def Let_def)
  have "length (take (nat T) big) = nat T"
    using enough len by simp
  moreover have "\<forall>i < nat T. take (nat T) big ! i = sound ! (i mod length sound)"
  proof (intro allI impI)
    fix i assume i: "i < nat T"
    then have "i < Suc n * length sound" using enough by linarith
    then have "big ! i = sound ! (i mod length sound)"
      unfolding big_def by (rule nth_concat_replicate)
    with i show "take (nat T) big ! i = sound ! (i mod length sound)"
      by simp
  qed
  ultimately show ?thesis using res by blast
qed

lemma force_length_truncates:
  "0 < T \<Longrightarrow> T \<le> int (length sound) \<Longrightarrow> force_length sound T = Inr (take (nat T) sound)"
  by (simp add: force_length_def Let_def)

lemma load_audio_vector:
  assumes "torchaudio_load path = Inr raw" "mono raw = Inr (Arr1 s)" "0 < T"
  shows "load_audio torchaudio_load path T = map_sum id Arr1 (force_length s T)"
  using assms by (simp add: load_audio_def)

text \<open>
  When the collapse of the decoded source to one channel is a sequence \<open>s\<close> of length
  \<open>L \<ge> 1\<close>, and the target is \<open>T > 0\<close>: if \<open>T > L\<close> the loader returns a sequence of
  length \<open>T\<close> whose first \<open>L\<close> samples are \<open>s\<close> and which repeats with period \<open>L\<close>;
  if \<open>T \<le> L\<close> it returns the first \<open>T\<close> samples of \<open>s\<close>.
\<close>

lemma load_audio_tiles_or_truncates:
  assumes "torchaudio_load path = Inr raw" "mono raw = Inr (Arr1 s)" "s \<noteq> []" "0 < T"
  shows "(int (length s) < T \<longrightarrow>
            (\<exists>r. load_audio torchaudio_load path T = Inr (Arr1 r) \<and> length r = nat T \<and>
                 take (length s) r = s \<and>
                 (\<forall>i. i + length s < nat T \<longrightarrow> r ! (i + length s) = r ! i))) \<and>
         (T \<le> int (length s) \<longrightarrow>
            load_audio torchaudio_load path T = Inr (Arr1 (take (nat T) s)))"
proof (intro conjI impI)
  assume less: "int (length s) < T"
  obtain r where r: "force_length s T = Inr r" "length r = nat T"
    "\<forall>i < nat T. r ! i = s ! (i mod length s)"
    using force_length_tiles [OF assms(3) less] by blast
  have lenle: "length s \<le> nat T" using less by linarith
  have "take (length s) r = s"
  proof (rule nth_equalityI)
    show "length (take (length s) r) = length s" using r(2) lenle by simp
  next
    fix i assume "i < length (take (length s) r)"
    then have i: "i < length s" by simp
    then have "r ! i = s ! (i mod length s)" using r(3) lenle by simp
    with i show "take (length s) r ! i = s ! i" by simp
  qed
  moreover have "\<forall>i. i + length s < nat T \<longrightarrow> r ! (i + length s) = r ! i"
  proof (intro allI impI)
    fix i assume a: "i + length s < nat T"
    then have "r ! (i + length s) = s ! ((i + length s) mod length s)" using r(3) by blast
    moreover have "r ! i = s ! (i mod length s)" using r(3) a by simp
    ultimately show "r ! (i + length s) = r ! i" by simp
  qed
  moreover have "load_audio torchaudio_load path T = Inr (Arr1 r)"
    using load_audio_vector [of torchaudio_load path raw s T] assms r(1) by simp
  ultimately show "\<exists>r. load_audio torchaudio_load path T = Inr (Arr1 r) \<and> length r = nat T \<and>
                 take (length s) r = s \<and>
                 (\<forall>i. i + length s < nat T \<longrightarrow> r ! (i + length s) = r ! i)"
    using r(2) by blast
next
  assume "T \<le> int (length s)"
  then show "load_audio torchaudio_load path T = Inr (Arr1 (take (nat T) s))"
    using load_audio_vector [of torchaudio_load path raw s T] assms
      force_length_truncates [of T s] by simp
qed

text \<open>A mono file of three frames, forced to eight frames and to two.\<close>

lemma load_audio_three_frames:
  "(\<exists>r. load_audio (\<lambda>p. Inr (Arr2 1 [[1], [2], [3]])) ''a.wav'' 8 = Inr (Arr1 r) \<and>
        length r = 8 \<and> take 3 r = [1, 2, 3] \<and> (\<forall>i. i + 3 < 8 \<longrightarrow> r ! (i + 3) = r ! i)) \<and>
   load_audio (\<lambda>p. Inr (Arr2 1 [[1], [2], [3]])) ''a.wav'' 2 = Inr (Arr1 [1, 2])"
  using load_audio_tiles_or_truncates
          [of "\<lambda>p. Inr (Arr2 1 [[1], [2], [3]])" "''a.wav''" "Arr2 1 [[1], [2], [3]]" "[1, 2, 3]" 8]
        load_audio_tiles_or_truncates
          [of "\<lambda>p. Inr (Arr2 1 [[1], [2], [3]])" "''a.wav''" "Arr2 1 [[1], [2], [3]]" "[1, 2, 3]" 2]
  by (simp add: mono_def np_squeeze_def numeral_3_eq_3)

text \<open>
  An empty source and a target of one frame make the loader divide by the length 0.
\<close>

lemma load_audio_empty_source:
  "load_audio (\<lambda>p. Inr (Arr2 1 [])) ''a.wav'' 1 = Inl ZeroDivisionError"
  by (simp add: load_audio_def mono_def np_squeeze_def force_length_def)

text \<open>
  The collapse of a single-channel source of exactly one frame is not a sequence:
  \<^verbatim>\<open>squeeze()\<close> removes both axes and leaves a 0-dimensional array, and the length test
  of the loader raises for every target.
\<close>

lemma load_audio_single_frame_mono:
  "0 < T \<Longrightarrow> load_audio (\<lambda>p. Inr (Arr2 1 [[x]])) path T = Inl IndexError"
  by (simp add: load_audio_def mono_def np_squeeze_def)

text \<open>
  Claim C6. For a decodable source of length \<open>L\<close> and a target \<open>T\<close>, the loader is to
  return the first \<open>T\<close> samples when \<open>0 < T \<le> L\<close> and the source tiled to length \<open>T\<close> when
  \<open>T > L\<close>. For a single-channel file of one frame (\<open>L = 1\<close>) holding the sample 1 that is
  \<open>[1]\<close> for \<open>T = 1\<close> and \<open>[1, 1, 1]\<close> for \<open>T = 3\<close>. The code returns neither: it raises
  \<^verbatim>\<open>IndexError\<close> for both targets.
\<close>

theorem load_audio_single_frame:
  "load_audio (\<lambda>p. Inr (Arr2 1 [[1]])) ''a.wav'' 1 = Inl IndexError \<and>
   load_audio (\<lambda>p. Inr (Arr2 1 [[1]])) ''a.wav'' 3 = Inl IndexError"
  by (simp add: load_audio_def mono_def np_squeeze_def)

section \<open>Properties of binary floating point\<close>

lemma bit_length_0: "bit_length 0 = 0"
  by (simp add: bit_length.simps)

lemma bit_length_1: "bit_length 1 = 1"
  by (subst bit_length.simps) (simp add: bit_length_0)

lemma bit_length_Suc_0: "bit_length (Suc 0) = 1"
  using bit_length_1 by simp

lemma bit_length_numeral: "bit_length (numeral n) = 1 + bit_length (numeral n div 2)"
  by (subst bit_length.simps) simp

lemmas bit_length_eval = bit_length_0 bit_length_1 bit_length_Suc_0 bit_length_numeral

lemma bit_length_pos: "n \<noteq> 0 \<Longrightarrow> bit_length n = 1 + bit_length (n div 2)"
  by (subst bit_length.simps) simp

lemma bit_length_le: "n < 2 ^ m \<Longrightarrow> bit_length n \<le> m"
proof (induction m arbitrary: n)
  case 0
  then show ?case by (simp add: bit_length_0)
next
  case (Suc m)
  show ?case
  proof (cases "n = 0")
    case True
    then show ?thesis by (simp add: bit_length_0)
  next
    case False
    have "n div 2 < 2 ^ m" using Suc.prems by simp
    then have "bit_length (n div 2) \<le> m" by (rule Suc.IH)
    then show ?thesis using False by (simp add: bit_length_pos)
  qed
qed

lemma bit_length_upper: "n < 2 ^ bit_length n"
proof (induction n rule: less_induct)
  case (less n)
  show ?case
  proof (cases "n = 0")
    case True
    then show ?thesis by simp
  next
    case False
    then have "n div 2 < n" by simp
    then have "n div 2 < 2 ^ bit_length (n div 2)" by (rule less.IH)
    then have "n < 2 * 2 ^ bit_length (n div 2)" by linarith
    then show ?thesis using False by (simp add: bit_length_pos)
  qed
qed

lemma bit_length_lower: "n \<noteq> 0 \<Longrightarrow> 2 ^ (bit_length n - 1) \<le> n"
proof (induction n rule: less_induct)
  case (less n)
  show ?case
  proof (cases "n div 2 = 0")
    case True
    then have "n = 1" using less.prems by linarith
    then show ?thesis by (simp add: bit_length_Suc_0)
  next
    case False
    have "n div 2 < n" using less.prems by simp
    then have "2 ^ (bit_length (n div 2) - 1) \<le> n div 2"
      using False by (rule less.IH)
    then have "2 * 2 ^ (bit_length (n div 2) - 1) \<le> n" by linarith
    moreover have "bit_length (n div 2) \<noteq> 0"
      using False by (simp add: bit_length_pos)
    ultimately have "2 ^ bit_length (n div 2) \<le> n"
      by (cases "bit_length (n div 2)") simp_all
    then show ?thesis using less.prems by (simp add: bit_length_pos)
  qed
qed

lemma bit_length_greater: "2 ^ m \<le> n \<Longrightarrow> m < bit_length n"
proof (rule ccontr)
  assume a: "2 ^ m \<le> n" and "\<not> m < bit_length n"
  then have "bit_length n \<le> m" by simp
  then have "(2::nat) ^ bit_length n \<le> 2 ^ m" by (intro power_increasing) simp_all
  with bit_length_upper [of n] a show False by linarith
qed

lemma round_half_even_ge: "a div b \<le> round_half_even a b"
  by (simp add: round_half_even_def Let_def)

lemma round_half_even_exact: "0 < b \<Longrightarrow> round_half_even (q * b) b = q"
  by (simp add: round_half_even_def Let_def)

lemma round_digits_ge: "n div 2 ^ (bit_length n - p) * 2 ^ (bit_length n - p) \<le> round_digits p n"
  using round_half_even_ge [of n "2 ^ (bit_length n - p)"]
  by (simp add: round_digits_def Let_def)

lemma round_digits_small: "n < 2 ^ p \<Longrightarrow> round_digits p n = n"
  using bit_length_le [of n p] by (simp add: round_digits_def Let_def round_half_even_def)

lemma round_digits_pos:
  assumes "0 < n" "0 < p"
  shows "0 < round_digits p n"
proof -
  let ?e = "bit_length n - p"
  have "(2::nat) ^ ?e \<le> 2 ^ (bit_length n - 1)"
    using assms(2) by (intro power_increasing) simp_all
  also have "\<dots> \<le> n" using assms(1) by (intro bit_length_lower) simp
  finally have "1 \<le> n div 2 ^ ?e" by (simp add: Suc_le_eq div_greater_zero_iff)
  then have "0 < n div 2 ^ ?e * 2 ^ ?e" by simp
  then show ?thesis using round_digits_ge [of n p] by linarith
qed


lemma round_half_even_error:
  assumes "0 < b"
  shows "\<bar>real (round_half_even a b) - real a / real b\<bar> \<le> 1 / 2"
proof -
  define q where "q = a div b"
  define r where "r = a mod b"
  have "a = q * b + r" by (simp add: q_def r_def)
  then have a: "real a = real q * real b + real r"
    by (metis of_nat_add of_nat_mult)
  have rb: "r < b" using assms by (simp add: r_def)
  have b: "0 < real b" using assms by simp
  have quot: "real a / real b = real q + real r / real b"
    using b by (simp add: a field_simps)
  show ?thesis
  proof (cases "2 * r < b \<or> (2 * r = b \<and> even q)")
    case True
    then have "2 * r \<le> b" by auto
    then have "2 * real r \<le> real b" by (metis of_nat_le_iff of_nat_mult of_nat_numeral)
    then have "real r / real b \<le> 1 / 2" using b by (simp add: field_simps)
    moreover have "0 \<le> real r / real b" by simp
    moreover have "round_half_even a b = q"
      using True by (simp add: round_half_even_def Let_def q_def r_def)
    ultimately show ?thesis by (simp add: quot)
  next
    case False
    then have "b \<le> 2 * r" by auto
    then have "real b \<le> 2 * real r" by (metis of_nat_le_iff of_nat_mult of_nat_numeral)
    then have "1 / 2 \<le> real r / real b" using b by (simp add: field_simps)
    moreover have "real r / real b \<le> 1" using rb b by (simp add: field_simps)
    moreover have "round_half_even a b = q + 1"
      using False by (simp add: round_half_even_def Let_def q_def r_def)
    ultimately show ?thesis by (simp add: quot)
  qed
qed

text \<open>
  The scaled quotient that is rounded to an integer is at least \<open>2\<^sup>p\<^sup>-\<^sup>1\<close>.
\<close>

lemma float_quotient_scaled:
  assumes "0 < a" "0 < b"
  obtains s where
    "float_quotient p a b =
       (round_half_even (a * 2 ^ nat s) (b * 2 ^ nat (- s)) * 2 ^ nat (- s), 2 ^ nat s)"
    and "2 ^ p * (b * 2 ^ nat (- s)) \<le> 2 * (a * 2 ^ nat s)"
proof -
  define s0 where "s0 = int p + int (bit_length b) - int (bit_length a)"
  define s where
    "s = (if b * 2 ^ nat (- s0) * 2 ^ p \<le> a * 2 ^ nat s0 then s0 - 1 else s0)"
  have res: "float_quotient p a b =
       (round_half_even (a * 2 ^ nat s) (b * 2 ^ nat (- s)) * 2 ^ nat (- s), 2 ^ nat s)"
    using assms(1) by (simp add: float_quotient_def Let_def s_def s0_def)
  have la: "0 < bit_length a" using assms(1) by (simp add: bit_length_pos)
  have e: "p + bit_length b + nat (- s0) = (bit_length a - 1) + nat s0 + 1"
    using la unfolding s0_def by linarith
  have "b * 2 ^ (p + nat (- s0)) \<le> 2 ^ bit_length b * 2 ^ (p + nat (- s0))"
    using bit_length_upper [of b] by (intro mult_le_mono1) simp
  also have "\<dots> = 2 ^ (p + bit_length b + nat (- s0))"
    by (simp add: power_add)
  also have "\<dots> = 2 * (2 ^ (bit_length a - 1) * 2 ^ nat s0)"
    by (simp only: e) (simp add: power_add)
  also have "\<dots> \<le> 2 * (a * 2 ^ nat s0)"
    using bit_length_lower [of a] assms(1) by (intro mult_le_mono2 mult_le_mono1) simp
  finally have base: "2 ^ p * (b * 2 ^ nat (- s0)) \<le> 2 * (a * 2 ^ nat s0)"
    by (simp add: power_add mult_ac)
  have "2 ^ p * (b * 2 ^ nat (- s)) \<le> 2 * (a * 2 ^ nat s)"
  proof (cases "b * 2 ^ nat (- s0) * 2 ^ p \<le> a * 2 ^ nat s0")
    case False
    then show ?thesis using base by (simp add: s_def)
  next
    case True
    then have s: "s = s0 - 1" by (simp add: s_def)
    show ?thesis
    proof (cases "1 \<le> s0")
      case True
      then have "nat s = nat s0 - 1" "nat (- s) = 0" "nat (- s0) = 0" "nat s0 \<noteq> 0"
        using s by simp_all
      moreover from this have "(2::nat) * 2 ^ (nat s0 - 1) = 2 ^ nat s0"
        by (cases "nat s0") simp_all
      ultimately show ?thesis
        using \<open>b * 2 ^ nat (- s0) * 2 ^ p \<le> a * 2 ^ nat s0\<close> by (simp add: mult_ac)
    next
      case False
      then have "nat s = 0" "nat s0 = 0" "nat (- s) = nat (- s0) + 1"
        using s by simp_all
      then show ?thesis
        using \<open>b * 2 ^ nat (- s0) * 2 ^ p \<le> a * 2 ^ nat s0\<close> by (simp add: mult_ac)
    qed
  qed
  with res show ?thesis by (rule that)
qed

text \<open>A rounded quotient differs from the quotient by at most its \<open>2\<^sup>p\<close>-th part.\<close>

lemma float_quotient_error:
  assumes "0 < a" "0 < b" "0 < p" "float_quotient p a b = (n, d)"
  shows "0 < n" and "0 < d"
    and "\<bar>real n / real d - real a / real b\<bar> \<le> real a / real b / 2 ^ p"
proof -
  obtain s where
    res: "float_quotient p a b =
       (round_half_even (a * 2 ^ nat s) (b * 2 ^ nat (- s)) * 2 ^ nat (- s), 2 ^ nat s)"
    and scaled: "2 ^ p * (b * 2 ^ nat (- s)) \<le> 2 * (a * 2 ^ nat s)"
    using assms(1,2) by (rule float_quotient_scaled)
  define U :: nat where "U = 2 ^ nat s"
  define D :: nat where "D = 2 ^ nat (- s)"
  define m where "m = round_half_even (a * U) (b * D)"
  have n: "n = m * D" and d: "d = U"
    using res assms(4) by (simp_all add: m_def U_def D_def)
  have U: "0 < U" and D: "0 < D" by (simp_all add: U_def D_def)
  have den: "0 < b * D" using assms(2) D by simp
  have sc: "2 ^ p * (b * D) \<le> 2 * (a * U)" using scaled by (simp add: U_def D_def)
  have "2 * (b * D) \<le> 2 ^ p * (b * D)"
    using assms(3) by (intro mult_le_mono1) (cases p, simp_all)
  with sc have "b * D \<le> a * U" by linarith
  then have "1 \<le> a * U div (b * D)"
    using den by (simp add: Suc_le_eq div_greater_zero_iff)
  then have "1 \<le> m"
    using round_half_even_ge [of "a * U" "b * D"] by (simp add: m_def)
  then show "0 < n" using D by (simp add: n)
  show "0 < d" using U by (simp add: d)
  define y where "y = real (a * U) / real (b * D)"
  have y: "real a / real b = y * (real D / real U)"
    using U D assms(2) by (simp add: y_def)
  have "real (2 ^ p * (b * D)) \<le> real (2 * (a * U))"
    using sc by (simp only: of_nat_le_iff)
  then have "2 ^ p * real (b * D) \<le> 2 * real (a * U)" by simp
  then have half: "1 / 2 \<le> y / 2 ^ p"
    using den by (simp add: y_def field_simps)
  have "\<bar>real m - y\<bar> \<le> 1 / 2"
    unfolding m_def y_def using den by (rule round_half_even_error)
  with half have "\<bar>real m - y\<bar> \<le> y / 2 ^ p" by linarith
  then have le: "\<bar>real m - y\<bar> * (real D / real U) \<le> y / 2 ^ p * (real D / real U)"
    using U D by (intro mult_right_mono) simp_all
  have eq: "real n / real d - real a / real b = (real m - y) * (real D / real U)"
    by (simp add: n d y algebra_simps diff_divide_distrib)
  have "\<bar>real n / real d - real a / real b\<bar> = \<bar>real m - y\<bar> * \<bar>real D / real U\<bar>"
    by (simp only: eq abs_mult)
  also have "\<dots> = \<bar>real m - y\<bar> * (real D / real U)" by simp
  also have "\<dots> \<le> y / 2 ^ p * (real D / real U)" by (rule le)
  also have "\<dots> = real a / real b / 2 ^ p" by (simp add: y)
  finally show "\<bar>real n / real d - real a / real b\<bar> \<le> real a / real b / 2 ^ p" .
qed

lemma float_quotient_same:
  assumes "0 < a" "0 < p"
  shows "float_quotient p a a = (2 ^ (p - 1), 2 ^ (p - 1))"
proof -
  have "nat (int p - 1) = p - 1" "nat (1 - int p) = 0" using assms(2) by simp_all
  moreover have "round_half_even (a * 2 ^ (p - 1)) a = 2 ^ (p - 1)"
    using round_half_even_exact [of a "2 ^ (p - 1)"] assms(1) by (simp add: mult.commute)
  ultimately show ?thesis
    using assms by (simp add: float_quotient_def Let_def)
qed

text \<open>The fraction of a sample as long as the longest is 1.\<close>

lemma fraction_of_longest:
  assumes "0 < M"
  shows "float32_store (float64_div M M) = 1"
proof -
  have "0 < round_digits 53 M" using assms by (intro round_digits_pos) simp_all
  then have "float64_div M M = (2 ^ 52, 2 ^ 52)"
    using float_quotient_same [of "round_digits 53 M" 53] by (simp add: float64_div_def)
  moreover have "float_quotient 24 (2 ^ 52) (2 ^ 52) = (2 ^ 23, 2 ^ 23)"
    using float_quotient_same [of "2 ^ 52" 24] by simp
  ultimately show ?thesis by (simp add: float32_store_def)
qed

text \<open>
  The stored fraction is the quotient up to the two roundings: its error is at most the
  \<open>2\<^sup>2\<^sup>3\<close>-th part of the quotient.
\<close>

lemma fraction_error:
  assumes "a < 2 ^ 53" "0 < b" "b < 2 ^ 53"
  shows "\<bar>float32_store (float64_div a b) - real a / real b\<bar> \<le> real a / real b / 2 ^ 23"
proof (cases "a = 0")
  case True
  then show ?thesis
    by (simp add: float32_store_def float64_div_def float_quotient_def round_digits_small)
next
  case False
  then have a: "0 < a" by simp
  define x where "x = real a / real b"
  have x: "0 < x" using a assms(2) by (simp add: x_def)
  obtain n d where q: "float_quotient 53 a b = (n, d)" by (cases "float_quotient 53 a b")
  obtain n' d' where q': "float_quotient 24 n d = (n', d')" by (cases "float_quotient 24 n d")
  define y where "y = real n / real d"
  define z where "z = real n' / real d'"
  have e1: "\<bar>y - x\<bar> \<le> x / 2 ^ 53" and n: "0 < n" and d: "0 < d"
    using float_quotient_error [OF a assms(2) _ q] by (simp_all add: x_def y_def)
  have e2: "\<bar>z - y\<bar> \<le> y / 2 ^ 24"
    using float_quotient_error(3) [OF n d _ q'] by (simp add: y_def z_def)
  have "y \<le> x + x / 2 ^ 53" using e1 by linarith
  then have "y / 2 ^ 24 \<le> (x + x / 2 ^ 53) / 2 ^ 24"
    by (simp add: divide_right_mono)
  with e1 e2 have "\<bar>z - x\<bar> \<le> (x + x / 2 ^ 53) / 2 ^ 24 + x / 2 ^ 53" by linarith
  also have "\<dots> \<le> x / 2 ^ 23" using x by (simp add: field_simps)
  finally have "\<bar>z - x\<bar> \<le> x / 2 ^ 23" .
  moreover have "float32_store (float64_div a b) = z"
    using assms q q' by (simp add: float32_store_def float64_div_def round_digits_small z_def)
  ultimately show ?thesis by (simp add: x_def)
qed

text \<open>Three stored fractions: 5/8 and 1 are binary32 numbers, 1/3 is not.\<close>

lemma fraction_5_8: "float32_store (float64_div 5 8) = 5 / 8"
  by (simp add: float32_store_def float64_div_def float_quotient_def round_digits_def
        round_half_even_def bit_length_eval Let_def)

lemma fraction_8_8: "float32_store (float64_div 8 8) = 1"
  by (rule fraction_of_longest) simp

lemma fraction_1_3: "float32_store (float64_div 1 3) = 11184811 / 33554432"
  by (simp add: float32_store_def float64_div_def float_quotient_def round_digits_def
        round_half_even_def bit_length_eval Let_def)

section \<open>Properties of the metadata buffer consumer\<close>

text \<open>The float \<^verbatim>\<open>0.01\<close> is the binary64 number nearest to a hundredth.\<close>

lemma hundredth_float: "float_quotient 53 1 100 = (hundredth, 2 ^ 59)"
  by (simp add: float_quotient_def round_half_even_def bit_length_eval hundredth_def Let_def)

text \<open>Once the running timeout has reached 5 it stays there.\<close>

lemma float64_add_five:
  assumes "five \<le> t"
  shows "five \<le> float64_add t hundredth"
proof -
  define s where "s = t + hundredth"
  define e where "e = bit_length s - 53"
  have s: "five \<le> s" using assms by (simp add: s_def)
  have "(2::nat) ^ 61 \<le> s" using s by (simp add: five_def)
  then have l: "61 < bit_length s" by (rule bit_length_greater)
  have r: "s div 2 ^ e * 2 ^ e \<le> round_digits 53 s"
    unfolding e_def by (rule round_digits_ge)
  have "five \<le> s div 2 ^ e * 2 ^ e"
  proof (cases "s < 2 ^ 62")
    case True
    then have "bit_length s \<le> 62" by (rule bit_length_le)
    with l have e: "e = 9" by (simp add: e_def)
    have "5 * 2 ^ 50 * (2::nat) ^ 9 \<le> s" using s by (simp add: five_def)
    then have "5 * 2 ^ 50 \<le> s div 2 ^ 9"
      using less_eq_div_iff_mult_less_eq [of "2 ^ 9" "5 * 2 ^ 50" s] by simp
    then have "5 * 2 ^ 50 * (2::nat) ^ 9 \<le> s div 2 ^ 9 * 2 ^ 9"
      by (rule mult_le_mono1)
    then show ?thesis by (simp add: e five_def)
  next
    case False
    then have "(2::nat) ^ 62 \<le> s" by simp
    then have l2: "62 < bit_length s" by (rule bit_length_greater)
    have "s \<noteq> 0" using s by (simp add: five_def)
    then have "2 ^ (bit_length s - 1) \<le> s" by (rule bit_length_lower)
    moreover have "bit_length s - 1 = 52 + e" using l2 by (simp add: e_def)
    ultimately have "2 ^ 52 * (2::nat) ^ e \<le> s" by (simp add: power_add)
    then have q: "2 ^ 52 \<le> s div 2 ^ e"
      using less_eq_div_iff_mult_less_eq [of "2 ^ e" "2 ^ 52" s] by simp
    have p: "(2::nat) ^ 10 \<le> 2 ^ e"
      using l2 by (intro power_increasing) (simp_all add: e_def)
    have "2 ^ 52 * (2::nat) ^ 10 \<le> s div 2 ^ e * 2 ^ e"
      using q p by (rule mult_le_mono)
    then show ?thesis by (simp add: five_def)
  qed
  with r show ?thesis by (simp add: float64_add_def s_def)
qed

lemma timeout_after_numeral:
  "timeout_after (numeral n) = float64_add (timeout_after (pred_numeral n)) hundredth"
  by (simp add: numeral_eq_Suc)

text \<open>
  After 500 additions of 0.01 the binary64 sum is \<open>4.999999999999938\<close>, still below 5;
  the next addition takes it to \<open>5.009999999999938\<close>.
\<close>

lemma timeout_after_500: "timeout_after 500 = 2882303761517081600"
  by (simp add: timeout_after_numeral float64_add_def hundredth_def round_digits_def
        round_half_even_def bit_length_eval Let_def)

lemma timeout_after_501: "timeout_after 501 = 2888068369040115712"
proof -
  have "timeout_after 501 = float64_add (timeout_after 500) hundredth"
    by (simp add: timeout_after_numeral)
  then show ?thesis
    by (simp add: timeout_after_500 float64_add_def hundredth_def round_digits_def
      round_half_even_def bit_length_eval Let_def)
qed

lemma timeout_after_below: "k \<le> 500 \<Longrightarrow> timeout_after k < five"
proof (induction "500 - k" arbitrary: k)
  case 0
  then have "k = 500" by simp
  then show ?case by (simp add: timeout_after_500 five_def)
next
  case (Suc d)
  then have "d = 500 - Suc k" "Suc k \<le> 500" by simp_all
  then have "timeout_after (Suc k) < five" by (rule Suc.hyps(1))
  then show ?case
    using float64_add_five [of "timeout_after k"] by (cases "timeout_after k < five") simp_all
qed

declare poll.simps [simp del]

lemma poll_nonempty: "buf \<noteq> [] \<Longrightarrow> poll producer k t buf = (k, buf)"
  by (subst poll.simps) simp

lemma poll_timed_out: "five \<le> t \<Longrightarrow> poll producer k t buf = (k, buf)"
  by (subst poll.simps) simp

lemma poll_sleep:
  "k \<le> 500 \<Longrightarrow>
   poll producer k (timeout_after k) [] =
     poll producer (Suc k) (timeout_after (Suc k)) (producer k)"
  using timeout_after_below [of k] by (subst poll.simps) simp

lemma poll_idle:
  "\<forall>j < n. producer j = [] \<Longrightarrow> n \<le> 501 \<Longrightarrow>
   poll producer 0 0 [] = poll producer n (timeout_after n) []"
proof (induction n)
  case 0
  then show ?case by simp
next
  case (Suc n)
  have "poll producer 0 0 [] = poll producer n (timeout_after n) []"
    using Suc.prems by (intro Suc.IH) simp_all
  also have "\<dots> = poll producer (Suc n) (timeout_after (Suc n)) (producer n)"
    using Suc.prems(2) by (intro poll_sleep) simp
  finally show ?case using Suc.prems(1) by simp
qed

lemma poll_bound:
  "k \<le> 501 \<Longrightarrow> fst (poll producer k (timeout_after k) buf) \<le> 501"
proof (induction "501 - k" arbitrary: k buf)
  case 0
  then have "k = 501" by simp
  then show ?case by (simp add: poll_timed_out timeout_after_501 five_def)
next
  case (Suc d)
  then have k: "k \<le> 500" by simp
  show ?case
  proof (cases "buf = []")
    case True
    have "d = 501 - Suc k" using Suc.hyps(2) by linarith
    then have "fst (poll producer (Suc k) (timeout_after (Suc k)) (producer k)) \<le> 501"
      using k by (intro Suc.hyps(1)) simp_all
    then show ?thesis using True poll_sleep [OF k, of producer] by simp
  next
    case False
    then show ?thesis using Suc.prems by (simp add: poll_nonempty)
  qed
qed

lemma poll_arrival:
  assumes "n < 501" "\<forall>j < n. producer j = []" "producer n \<noteq> []"
  shows "poll producer 0 0 [] = (Suc n, producer n)"
proof -
  have "poll producer 0 0 [] = poll producer n (timeout_after n) []"
    using assms by (intro poll_idle) simp_all
  also have "\<dots> = poll producer (Suc n) (timeout_after (Suc n)) (producer n)"
    using assms(1) by (intro poll_sleep) simp
  also have "\<dots> = (Suc n, producer n)"
    using assms(3) by (rule poll_nonempty)
  finally show ?thesis .
qed

lemma poll_starved:
  assumes "\<forall>j < 501. producer j = []"
  shows "poll producer 0 0 [] = (501, [])"
proof -
  have "poll producer 0 0 [] = poll producer 501 (timeout_after 501) []"
    using assms by (intro poll_idle) simp_all
  also have "\<dots> = (501, [])"
    by (simp add: poll_timed_out timeout_after_501 five_def)
  finally show ?thesis .
qed

text \<open>
  C4, as amended. The consumer sleeps at most 501 times 10 ms, about five seconds: the
  loop runs while the binary64 sum of the elapsed hundredths is below 5, and the sum of
  500 of them still is. A buffer that is not empty is served at once, oldest record
  first; a buffer that receives its first records during sleep \<open>n\<close> (counted from 0,
  \<open>n \<le> 500\<close>) is served after \<open>n + 1\<close> sleeps, oldest record first; and when nothing
  arrives in 501 sleeps the removal from the empty buffer raises (\<^verbatim>\<open>IndexError\<close> in the
  source, the underflow of the specification).
\<close>

theorem pop_meta_buffer_contract:
  "fst (snd (pop_meta_buffer producer buf)) \<le> 501 \<and>
   (buf \<noteq> [] \<longrightarrow> pop_meta_buffer producer buf = (Inr (hd buf), 0, tl buf)) \<and>
   (\<forall>n. n < 501 \<and> (\<forall>j < n. producer j = []) \<and> producer n \<noteq> [] \<longrightarrow>
        pop_meta_buffer producer [] = (Inr (hd (producer n)), Suc n, tl (producer n))) \<and>
   ((\<forall>j < 501. producer j = []) \<longrightarrow> pop_meta_buffer producer [] = (Inl IndexError, 501, []))"
proof (intro conjI allI impI)
  have "fst (poll producer 0 (timeout_after 0) buf) \<le> 501"
    by (rule poll_bound) simp
  then show "fst (snd (pop_meta_buffer producer buf)) \<le> 501"
    by (auto simp: pop_meta_buffer_def split: prod.splits list.splits)
next
  assume "buf \<noteq> []"
  then show "pop_meta_buffer producer buf = (Inr (hd buf), 0, tl buf)"
    by (cases buf) (simp_all add: pop_meta_buffer_def poll_nonempty)
next
  fix n
  assume a: "n < 501 \<and> (\<forall>j < n. producer j = []) \<and> producer n \<noteq> []"
  then have "poll producer 0 0 [] = (Suc n, producer n)"
    by (intro poll_arrival) simp_all
  with a show "pop_meta_buffer producer [] = (Inr (hd (producer n)), Suc n, tl (producer n))"
    by (cases "producer n") (simp_all add: pop_meta_buffer_def)
next
  assume "\<forall>j < 501. producer j = []"
  then have "poll producer 0 0 [] = (501, [])"
    by (rule poll_starved)
  then show "pop_meta_buffer producer [] = (Inl IndexError, 501, [])"
    by (simp add: pop_meta_buffer_def)
qed

text \<open>
  A buffer that holds two records; records that arrive during the third sleep; a record
  that arrives during the last sleep, number 500; and no record at all.
\<close>

theorem pop_meta_buffer_contract_witness:
  "pop_meta_buffer (\<lambda>k. []) [3::nat, 4] = (Inr 3, 0, [4]) \<and>
   pop_meta_buffer (\<lambda>k. if k = 2 then [5::nat, 6] else []) [] = (Inr 5, 3, [6]) \<and>
   pop_meta_buffer (\<lambda>k. if k = 500 then [7::nat] else []) [] = (Inr 7, 501, []) \<and>
   pop_meta_buffer (\<lambda>k. []) ([]::nat list) = (Inl IndexError, 501, [])"
  using pop_meta_buffer_contract [of "\<lambda>k. []" "[3::nat, 4]"]
        pop_meta_buffer_contract [of "\<lambda>k. if k = 2 then [5::nat, 6] else []" "[]",
          THEN conjunct2, THEN conjunct2, THEN conjunct1, rule_format, of 2]
        pop_meta_buffer_contract [of "\<lambda>k. if k = 500 then [7::nat] else []" "[]",
          THEN conjunct2, THEN conjunct2, THEN conjunct1, rule_format, of 500]
        pop_meta_buffer_contract [of "\<lambda>k. []" "[]::nat list"]
  by simp

text \<open>
  C4 as stated bounds the wait by about 50 ms, five sleeps. A record that arrives during
  the hundredth sleep, a second after the call, is still returned: the wait was twenty
  times the stated bound.
\<close>

theorem pop_meta_buffer_wait_counterexample:
  "pop_meta_buffer (\<lambda>k. if k = 99 then [7::nat] else []) [] = (Inr 7, 100, []) \<and>
   \<not> 10 * fst (snd (pop_meta_buffer (\<lambda>k. if k = 99 then [7::nat] else []) [])) \<le> 50"
proof -
  have "poll (\<lambda>k. if k = 99 then [7::nat] else []) 0 0 [] = (Suc 99, [7])"
    using poll_arrival [of 99 "\<lambda>k. if k = 99 then [7::nat] else []"] by simp
  then show ?thesis by (simp add: pop_meta_buffer_def)
qed
section \<open>Properties of the parser construction\<close>

lemma NoiseInjection_init_three_args:
  "NoiseInjection_init find_files [a, b, c] = Inl TypeError"
  by (simp add: NoiseInjection_init_def)

lemma SpectrogramParser_init_noise_dir_fails:
  assumes "audio_conf ''noise_dir'' = Some dir" "dir \<noteq> PNone"
  shows "SpectrogramParser_init find_files audio_conf n a d = Inl KeyError \<or>
         SpectrogramParser_init find_files audio_conf n a d = Inl TypeError"
  using assms
  by (simp add: SpectrogramParser_init_def dict_getitem_def dict_get_def
        NoiseInjection_init_three_args split: option.split sum.split)

lemma SpectrogramParser_init_without_noise:
  assumes "audio_conf ''window_stride'' = Some s" "audio_conf ''window_size'' = Some z"
    "audio_conf ''sample_rate'' = Some (PInt r)" "audio_conf ''window'' = Some w"
    "audio_conf ''noise_dir'' = None"
  shows "\<exists>p. SpectrogramParser_init find_files audio_conf n a d = Inr p \<and> noiseInjector p = None"
  using assms
  by (simp add: SpectrogramParser_init_def dict_getitem_def dict_get_def py_number_def)

text \<open>
  C3. The claim: with a noise directory configured, constructing the parser succeeds and
  installs a noise injector. The code calls the injector's constructor with three
  positional arguments where it takes at most two, so the construction raises
  \<^verbatim>\<open>TypeError\<close> (or \<^verbatim>\<open>KeyError\<close> before that, when a key is missing): with a noise
  directory it never returns a parser.
\<close>

theorem SpectrogramParser_init_noise_dir_TypeError:
  "SpectrogramParser_init (\<lambda>p. Inr [''noise/a.wav'']) noisy_conf False False (- 1)
     = Inl TypeError"
  by (simp add: SpectrogramParser_init_def dict_getitem_def dict_get_def noisy_conf_def
        NoiseInjection_init_def)

section \<open>Properties of the metadata collation\<close>

lemma get_meta_two_files:
  "get_meta two_files (dataset (fresh_loader h)) 0 =
     Inr [MStr ''a.wav'', MStr ''a.txt'', MFloat 1, MFloat 1]"
  "get_meta two_files (dataset (fresh_loader h)) 1 =
     Inr [MStr ''b.wav'', MStr ''b.txt'', MFloat 2, MFloat 3]"
  by (simp_all add: get_meta_def two_files_def fresh_loader_def py_index_def)

text \<open>
  C2. The claim: entry \<open>i\<close> of the pushed item-level list is sample \<open>i\<close>'s own
  metadata, also for \<open>i = 0\<close>. In the code the batch aggregate is the same list object
  as the first item's entry, so summing into the aggregate rewrites entry 0: for two
  samples of durations 1 and 2, sizes 1 and 3 kB and 5 and 8 frames, entry 0 ends up
  with 3, 4 and 13.
\<close>

theorem my_collate_fn_first_item_aliased:
  "(case my_collate_fn two_files two_samples (fresh_loader [0, 1]) of
      Inr (r, L) \<Rightarrow> map (item_values L) (meta_buffer L)
    | Inl e \<Rightarrow> []) =
   [[[MStr ''a.wav'', MStr ''a.txt'', MFloat 3, MFloat 4, MInt 13],
     [MStr ''b.wav'', MStr ''b.txt'', MFloat 2, MFloat 3, MInt 8]]]"
  by (simp add: my_collate_fn_def two_samples_def py_max_def collated_init_def zeros_def
      collate_item_def copy_feature_def collect_meta_def py_index_def get_meta_def
      two_files_def fresh_loader_def py_add_def item_values_def Let_def upt_rec [of 0]
      upt_rec [of 1] upt_rec [of 2] enumerate_eq_zip nth_append)

section \<open>Properties of the batch collation\<close>

lemma max_by_in: "max_by key best ss \<in> insert best (set ss)"
  by (induction ss arbitrary: best) (auto split: if_splits)

lemma max_by_ge_best: "key best \<le> key (max_by key best ss)"
proof (induction ss arbitrary: best)
  case Nil
  then show ?case by simp
next
  case (Cons s ss)
  have "key best \<le> key (if key best < key s then s else best)" by simp
  also have "\<dots> \<le> key (max_by key (if key best < key s then s else best) ss)"
    by (rule Cons.IH)
  finally show ?case by simp
qed

lemma max_by_ge: "t \<in> set ss \<Longrightarrow> key t \<le> key (max_by key best ss)"
proof (induction ss arbitrary: best)
  case Nil
  then show ?case by simp
next
  case (Cons s ss)
  show ?case
  proof (cases "t = s")
    case True
    have "key s \<le> key (if key best < key s then s else best)" by simp
    also have "\<dots> \<le> key (max_by key (if key best < key s then s else best) ss)"
      by (rule max_by_ge_best)
    finally show ?thesis using True by simp
  next
    case False
    then have "t \<in> set ss" using Cons.prems by simp
    then show ?thesis using Cons.IH by simp
  qed
qed

lemma py_max_Inr:
  assumes "py_max key batch = Inr s"
  shows "s \<in> set batch" and "\<forall>t \<in> set batch. key t \<le> key s"
proof -
  obtain b bs where b: "batch = b # bs" and s: "s = max_by key b bs"
    using assms by (cases batch) (simp_all add: py_max_def)
  show "s \<in> set batch"
    using max_by_in [of key b bs] b s by simp
  show "\<forall>t \<in> set batch. key t \<le> key s"
    using max_by_ge [of _ bs key b] max_by_ge_best [of key b bs] b s by auto
qed

lemma py_max_key: 
  assumes "py_max key batch = Inr s"
  shows "key s = Max (key ` set batch)"
proof (rule sym, rule Max_eqI)
  show "finite (key ` set batch)" by simp
  show "\<And>y. y \<in> key ` set batch \<Longrightarrow> y \<le> key s"
    using py_max_Inr(2) [OF assms] by auto
  show "key s \<in> key ` set batch"
    using py_max_Inr(1) [OF assms] by simp
qed

lemma py_max_nonempty: "batch \<noteq> [] \<Longrightarrow> \<exists>s. py_max key batch = Inr s"
  by (cases batch) (simp_all add: py_max_def)

lemma py_max_empty: "py_max key [] = Inl ValueError"
  by (simp add: py_max_def)

text \<open>One step of the loop, when it succeeds.\<close>

lemma collate_item_Inr:
  assumes "collate_item tensor target m x st = Inr st'"
  shows "targets st' = targets st @ target"
    and "target_sizes st' = (target_sizes st)[x := int (length target)]"
    and "input_percentages st' =
           (input_percentages st)[x := float32_store (float64_div (size1 tensor) m)]"
    and "len0 (inputs st') = len0 (inputs st)" and "len1 (inputs st') = len1 (inputs st)"
    and "len2 (inputs st') = len2 (inputs st)" and "len3 (inputs st') = len3 (inputs st)"
    and "at4 (inputs st') =
           (\<lambda>a c i j. if a = x \<and> c = 0 \<and> i < len2 (inputs st) \<and> j < size1 tensor
                      then at2 tensor (if size0 tensor = 1 then 0 else i) j
                      else at4 (inputs st) a c i j)"
    and "0 < m"
  using assms
  by (auto simp: collate_item_def copy_feature_def Let_def split: if_splits sum.splits)

lemma collate_item_total:
  assumes "x < len0 (inputs st)" "0 < len1 (inputs st)" "size1 tensor \<le> len3 (inputs st)"
    "size0 tensor = len2 (inputs st) \<or> size0 tensor = 1" "0 < m"
  shows "\<exists>st'. collate_item tensor target m x st = Inr st'"
  using assms by (auto simp: collate_item_def copy_feature_def Let_def)



lemma collate_loop_percentages:
  "collate_loop batch m xs st = Inr st' \<Longrightarrow>
   input_percentages st' =
     fold (\<lambda>x ps. ps[x := float32_store (float64_div (size1 (fst (batch ! x))) m)]) xs
       (input_percentages st)"
proof (induction xs arbitrary: st)
  case Nil
  then show ?case by simp
next
  case (Cons x xs)
  obtain tensor target where bx: "batch ! x = (tensor, target)" by (cases "batch ! x")
  from Cons.prems bx obtain st1 where
    s1: "collate_item tensor target m x st = Inr st1" and
    r: "collate_loop batch m xs st1 = Inr st'"
    by (auto split: sum.splits)
  show ?case
    using Cons.IH [OF r] collate_item_Inr(3) [OF s1] bx by simp
qed

lemma collate_loop_shape:
  "collate_loop batch m xs st = Inr st' \<Longrightarrow>
   len0 (inputs st') = len0 (inputs st) \<and> len1 (inputs st') = len1 (inputs st) \<and>
   len2 (inputs st') = len2 (inputs st) \<and> len3 (inputs st') = len3 (inputs st)"
proof (induction xs arbitrary: st)
  case Nil
  then show ?case by simp
next
  case (Cons x xs)
  obtain tensor target where bx: "batch ! x = (tensor, target)" by (cases "batch ! x")
  from Cons.prems bx obtain st1 where
    s1: "collate_item tensor target m x st = Inr st1" and
    r: "collate_loop batch m xs st1 = Inr st'"
    by (auto split: sum.splits)
  show ?case
    using Cons.IH [OF r] collate_item_Inr(4,5,6,7) [OF s1] by simp
qed

lemma collate_loop_elements:
  "collate_loop batch m xs st = Inr st' \<Longrightarrow> distinct xs \<Longrightarrow>
   at4 (inputs st') a c i j =
     (if a \<in> set xs \<and> c = 0 \<and> i < len2 (inputs st) \<and> j < size1 (fst (batch ! a))
      then at2 (fst (batch ! a)) (if size0 (fst (batch ! a)) = 1 then 0 else i) j
      else at4 (inputs st) a c i j)"
proof (induction xs arbitrary: st)
  case Nil
  then show ?case by simp
next
  case (Cons x xs)
  obtain tensor target where bx: "batch ! x = (tensor, target)" by (cases "batch ! x")
  from Cons.prems(1) bx obtain st1 where
    s1: "collate_item tensor target m x st = Inr st1" and
    r: "collate_loop batch m xs st1 = Inr st'"
    by (auto split: sum.splits)
  have d: "distinct xs" "x \<notin> set xs" using Cons.prems(2) by simp_all
  show ?case
    using Cons.IH [OF r d(1)] collate_item_Inr(6,8) [OF s1] bx d(2) by auto
qed

lemma collate_loop_positive:
  "collate_loop batch m xs st = Inr st' \<Longrightarrow> xs \<noteq> [] \<Longrightarrow> 0 < m"
  by (cases xs; cases "batch ! hd xs")
     (auto split: sum.splits dest: collate_item_Inr(9))

lemma collate_loop_total:
  assumes "\<forall>x \<in> set xs. x < len0 (inputs st) \<and> size1 (fst (batch ! x)) \<le> len3 (inputs st) \<and>
             (size0 (fst (batch ! x)) = len2 (inputs st) \<or> size0 (fst (batch ! x)) = 1)"
    and "0 < len1 (inputs st)" "0 < m"
  shows "\<exists>st'. collate_loop batch m xs st = Inr st'"
  using assms
proof (induction xs arbitrary: st)
  case Nil
  then show ?case by simp
next
  case (Cons x xs)
  obtain tensor target where bx: "batch ! x = (tensor, target)" by (cases "batch ! x")
  have "\<exists>st1. collate_item tensor target m x st = Inr st1"
    using Cons.prems bx by (intro collate_item_total) auto
  then obtain st1 where s1: "collate_item tensor target m x st = Inr st1" ..
  have "\<exists>st'. collate_loop batch m xs st1 = Inr st'"
    using Cons.prems collate_item_Inr(4,5,6,7) [OF s1] by (intro Cons.IH) auto
  then show ?case using s1 bx by simp
qed

text \<open>Writing every position of a list once, in order, gives the list of the values.\<close>

lemma fold_update_prefix:
  "n \<le> length ts \<Longrightarrow> fold (\<lambda>x ts. ts[x := f x]) [0..<n] ts = map f [0..<n] @ drop n ts"
proof (induction n)
  case 0
  then show ?case by simp
next
  case (Suc n)
  then have n: "n < length ts" by simp
  have "fold (\<lambda>x ts. ts[x := f x]) [0..<Suc n] ts = (map f [0..<n] @ drop n ts)[n := f n]"
    using Suc by simp
  also have "\<dots> = map f [0..<n] @ (drop n ts)[0 := f n]"
    by (simp add: list_update_append)
  also have "(drop n ts)[0 := f n] = f n # drop (Suc n) ts"
    using n by (simp add: Cons_nth_drop_Suc [symmetric])
  finally show ?case by simp
qed

lemma fold_update_all:
  "length ts = n \<Longrightarrow> fold (\<lambda>x ts. ts[x := f x]) [0..<n] ts = map f [0..<n]"
  using fold_update_prefix [of n ts f] by simp

lemma map_nth_upt: "map (\<lambda>x. f (xs ! x)) [0..<length xs] = map f xs"
proof -
  have "map (\<lambda>x. f (xs ! x)) [0..<length xs] = map f (map (nth xs) [0..<length xs])"
    by simp
  then show ?thesis by (simp only: map_nth)
qed

text \<open>What the plain collation returns, when it returns.\<close>

lemma collate_fn_InrE:
  assumes "collate_fn batch = Inr (inp, tg, pc, sz)"
  obtains longest st where
    "py_max (\<lambda>p. size1 (fst p)) batch = Inr longest"
    "collate_loop batch (size1 (fst longest)) [0..<length batch]
       (collated_init (length batch) (size0 (fst longest)) (size1 (fst longest))) = Inr st"
    "inp = inputs st" "tg = targets st" "pc = input_percentages st" "sz = target_sizes st"
  using assms by (auto simp: collate_fn_def Let_def split: sum.splits)



lemma collate_fn_max_time:
  assumes "collate_fn batch = Inr (inp, tg, pc, sz)"
  shows "batch \<noteq> []" and "0 < Max ((\<lambda>s. size1 (fst s)) ` set batch)"
proof -
  from assms obtain longest st where
    l: "py_max (\<lambda>p. size1 (fst p)) batch = Inr longest" and
    r: "collate_loop batch (size1 (fst longest)) [0..<length batch]
       (collated_init (length batch) (size0 (fst longest)) (size1 (fst longest))) = Inr st"
    and inp: "inp = inputs st" and tg: "tg = targets st"
    and pc: "pc = input_percentages st" and sz: "sz = target_sizes st"
    by (rule collate_fn_InrE)
  show ne: "batch \<noteq> []"
    using l by (auto simp: py_max_def)
  then have "[0..<length batch] \<noteq> []" by simp
  from collate_loop_positive [OF r this]
  show "0 < Max ((\<lambda>s. size1 (fst s)) ` set batch)"
    by (simp only: py_max_key [OF l])
qed

lemma collate_fn_percentages:
  assumes "collate_fn batch = Inr (inp, tg, pc, sz)"
  shows "pc = map (\<lambda>s. float32_store
                          (float64_div (size1 (fst s)) (Max ((\<lambda>s. size1 (fst s)) ` set batch))))
                  batch"
proof -
  from assms obtain longest st where
    l: "py_max (\<lambda>p. size1 (fst p)) batch = Inr longest" and
    r: "collate_loop batch (size1 (fst longest)) [0..<length batch]
       (collated_init (length batch) (size0 (fst longest)) (size1 (fst longest))) = Inr st"
    and inp: "inp = inputs st" and tg: "tg = targets st"
    and pc: "pc = input_percentages st" and sz: "sz = target_sizes st"
    by (rule collate_fn_InrE)
  have "pc = map (\<lambda>x. float32_store (float64_div (size1 (fst (batch ! x))) (size1 (fst longest))))
                 [0..<length batch]"
    using collate_loop_percentages [OF r] pc
    by (simp add: collated_init_def fold_update_all)
  then have "pc = map (\<lambda>s. float32_store (float64_div (size1 (fst s)) (size1 (fst longest))))
                      batch"
    by (simp only:
          map_nth_upt [of "\<lambda>s. float32_store (float64_div (size1 (fst s)) (size1 (fst longest)))"
                          batch])
  then show ?thesis
    by (simp only: py_max_key [OF l])
qed

lemma collate_fn_shape:
  assumes "collate_fn batch = Inr (inp, tg, pc, sz)"
  shows "len0 inp = length batch" and "len1 inp = 1"
    and "\<exists>s \<in> set batch. len2 inp = size0 (fst s)"
    and "len3 inp = Max ((\<lambda>s. size1 (fst s)) ` set batch)"
proof -
  from assms obtain longest st where
    l: "py_max (\<lambda>p. size1 (fst p)) batch = Inr longest" and
    r: "collate_loop batch (size1 (fst longest)) [0..<length batch]
       (collated_init (length batch) (size0 (fst longest)) (size1 (fst longest))) = Inr st"
    and inp: "inp = inputs st" and tg: "tg = targets st"
    and pc: "pc = input_percentages st" and sz: "sz = target_sizes st"
    by (rule collate_fn_InrE)
  note s = collate_loop_shape [OF r]
  show "len0 inp = length batch" using s inp by (simp add: collated_init_def zeros_def)
  show "len1 inp = 1" using s inp by (simp add: collated_init_def zeros_def)
  have "len2 inp = size0 (fst longest)" using s inp by (simp add: collated_init_def zeros_def)
  then show "\<exists>s \<in> set batch. len2 inp = size0 (fst s)"
    using py_max_Inr(1) [OF l] by blast
  have "len3 inp = size1 (fst longest)" using s inp by (simp add: collated_init_def zeros_def)
  then show "len3 inp = Max ((\<lambda>s. size1 (fst s)) ` set batch)"
    by (simp only: py_max_key [OF l])
qed

lemma collate_fn_elements:
  assumes "collate_fn batch = Inr (inp, tg, pc, sz)"
  shows "at4 inp a c i j =
     (if a < length batch \<and> c = 0 \<and> i < len2 inp \<and> j < size1 (fst (batch ! a))
      then at2 (fst (batch ! a)) (if size0 (fst (batch ! a)) = 1 then 0 else i) j
      else 0)"
proof -
  from assms obtain longest st where
    l: "py_max (\<lambda>p. size1 (fst p)) batch = Inr longest" and
    r: "collate_loop batch (size1 (fst longest)) [0..<length batch]
       (collated_init (length batch) (size0 (fst longest)) (size1 (fst longest))) = Inr st"
    and inp: "inp = inputs st" and tg: "tg = targets st"
    and pc: "pc = input_percentages st" and sz: "sz = target_sizes st"
    by (rule collate_fn_InrE)
  have d: "distinct [0..<length batch]" by simp
  show ?thesis
    using collate_loop_elements [OF r d, of a c i j] collate_loop_shape [OF r] inp
    by (simp add: collated_init_def zeros_def)
qed

lemma collate_fn_returns:
  assumes "batch \<noteq> []" and "\<forall>s \<in> set batch. size0 (fst s) = F"
    and "\<exists>s \<in> set batch. 0 < size1 (fst s)"
  shows "\<exists>r. collate_fn batch = Inr r"
proof -
  obtain longest where l: "py_max (\<lambda>p. size1 (fst p)) batch = Inr longest"
    using py_max_nonempty [OF assms(1)] by blast
  note m = py_max_Inr [OF l]
  from assms(3) obtain s where "s \<in> set batch" "0 < size1 (fst s)" by blast
  then have pos: "0 < size1 (fst longest)" using m(2) by force
  have F: "size0 (fst longest) = F" using m(1) assms(2) by simp
  have "\<exists>st. collate_loop batch (size1 (fst longest)) [0..<length batch]
       (collated_init (length batch) (size0 (fst longest)) (size1 (fst longest))) = Inr st"
  proof (rule collate_loop_total)
    show "\<forall>x\<in>set [0..<length batch].
       x < len0 (inputs (collated_init (length batch) (size0 (fst longest)) (size1 (fst longest)))) \<and>
       size1 (fst (batch ! x))
       \<le> len3 (inputs (collated_init (length batch) (size0 (fst longest)) (size1 (fst longest)))) \<and>
       (size0 (fst (batch ! x)) =
        len2 (inputs (collated_init (length batch) (size0 (fst longest)) (size1 (fst longest)))) \<or>
        size0 (fst (batch ! x)) = 1)"
      using m(2) assms(2) F by (simp add: collated_init_def zeros_def)
    show "0 < len1 (inputs (collated_init (length batch) (size0 (fst longest)) (size1 (fst longest))))"
      by (simp add: collated_init_def zeros_def)
    show "0 < size1 (fst longest)" by (rule pos)
  qed
  then show ?thesis using l by (auto simp: collate_fn_def Let_def)
qed

text \<open>The variants against the plain collation.\<close>

lemma max_by_map:
  "max_by key (f b) (map f bs) = f (max_by (\<lambda>s. key (f s)) b bs)"
proof (induction bs arbitrary: b)
  case Nil
  then show ?case by simp
next
  case (Cons s bs)
  have "(if key (f b) < key (f s) then f s else f b) =
        f (if key (f b) < key (f s) then s else b)" by simp
  then show ?case using Cons.IH by simp
qed

lemma py_max_map:
  "py_max key (map f batch) =
     (case py_max (\<lambda>s. key (f s)) batch of Inl e \<Rightarrow> Inl e | Inr s \<Rightarrow> Inr (f s))"
  by (cases batch) (simp_all add: py_max_def max_by_map)

lemma collate_loop_paths_plain:
  "\<forall>x \<in> set xs. x < length batch \<Longrightarrow>
   collate_loop_paths batch m xs (st, ps) =
     (case collate_loop (map (\<lambda>s. (fst s, fst (snd s))) batch) m xs st of
        Inl e \<Rightarrow> Inl e
      | Inr st' \<Rightarrow> Inr (st', ps @ map (\<lambda>x. snd (snd (batch ! x))) xs))"
  by (induction xs arbitrary: st ps) (auto split: sum.splits prod.splits)

lemma collate_fn_paths_plain:
  "collate_fn_paths batch =
     (case collate_fn (map (\<lambda>s. (fst s, fst (snd s))) batch) of
        Inl e \<Rightarrow> Inl e
      | Inr (inp, tg, pc, sz) \<Rightarrow> Inr (inp, tg, pc, sz, map (\<lambda>s. snd (snd s)) batch, None))"
  by (simp add: collate_fn_paths_def collate_fn_def py_max_map collate_loop_paths_plain
        map_nth_upt [of "\<lambda>s. snd (snd s)"] Let_def split: sum.splits)









lemma my_collate_fn_two_samples:
  "\<exists>inp L'. my_collate_fn two_files two_samples (fresh_loader [0, 1]) =
            Inr ((inp, [1, 2, 3], [5 / 8, 1], [2, 1]), L')"
  by (simp add: my_collate_fn_def two_samples_def py_max_def collated_init_def zeros_def
      collate_item_def copy_feature_def collect_meta_def py_index_def get_meta_def
      two_files_def fresh_loader_def py_add_def fraction_5_8 fraction_8_8 Let_def
      upt_rec [of 0] upt_rec [of 1] upt_rec [of 2] enumerate_eq_zip nth_append)



text \<open>
  Claim C10. For a non-empty batch of samples with one frequency-bin count in which some
  sample has at least one time frame, the collation with paths returns a tuple of six
  components: the four of the plain collation on the same samples without their paths,
  the paths in batch order, and \<^verbatim>\<open>None\<close>.
\<close>

theorem collate_fn_paths_six_tuple:
  assumes "batch \<noteq> []" and "\<forall>s \<in> set batch. size0 (fst s) = F"
    and "\<exists>s \<in> set batch. 0 < size1 (fst s)"
  shows "\<exists>inp tg pc sz.
           collate_fn_paths batch = Inr (inp, tg, pc, sz, map (\<lambda>s. snd (snd s)) batch, None) \<and>
           collate_fn (map (\<lambda>s. (fst s, fst (snd s))) batch) = Inr (inp, tg, pc, sz)"
proof -
  have "\<exists>r. collate_fn (map (\<lambda>s. (fst s, fst (snd s))) batch) = Inr r"
    using assms by (intro collate_fn_returns [where F = F]) auto
  then obtain inp tg pc sz where
    "collate_fn (map (\<lambda>s. (fst s, fst (snd s))) batch) = Inr (inp, tg, pc, sz)"
    by (metis prod_cases4)
  then show ?thesis
    by (simp add: collate_fn_paths_plain)
qed

theorem collate_fn_paths_six_tuple_witness:
  "\<exists>inp tg pc sz.
     collate_fn_paths two_samples_paths = Inr (inp, tg, pc, sz, [''a.wav'', ''b.wav''], None)"
proof -
  have "two_samples_paths \<noteq> []" "\<forall>s \<in> set two_samples_paths. size0 (fst s) = 4"
    "\<exists>s \<in> set two_samples_paths. 0 < size1 (fst s)"
    by (simp_all add: two_samples_paths_def)
  from collate_fn_paths_six_tuple [OF this] show ?thesis
    by (auto simp add: two_samples_paths_def)
qed

text \<open>
  C10 as stated has a tuple returned for every non-empty batch. A batch whose only sample
  has no time frame makes the collation divide by zero, and a batch of samples with 4 and
  with 3 frequency bins makes the copy of the first sample fail: nothing is returned.
\<close>

theorem collate_fn_paths_raises_counterexample:
  "collate_fn_paths [(Tensor2 4 0 (\<lambda>i j. 0), [], ''a.wav'')] = Inl ZeroDivisionError \<and>
   collate_fn_paths [(Tensor2 4 5 (\<lambda>i j. 1), [1, 2], ''a.wav''),
                     (Tensor2 3 8 (\<lambda>i j. 1), [3], ''b.wav'')] = Inl RuntimeError"
  by (simp add: collate_fn_paths_def py_max_def collated_init_def zeros_def collate_item_def
        copy_feature_def Let_def upt_rec [of 0] upt_rec [of 1] upt_rec [of 2])
text \<open>
  Claim C5. For a non-empty batch of samples with one frequency-bin count \<open>F\<close> in which
  some sample has at least one time frame, the plain collation returns; the input tensor
  has shape \<open>[N, 1, F, max_time]\<close> with \<open>max_time\<close> the largest time length of the batch;
  for every sample the columns below its time length hold its feature and the columns
  from its time length on are zero. Its fraction is the binary32 number stored for the
  binary64 quotient of its time length by \<open>max_time\<close>: it is 1 for a sample of that
  length, and for \<open>max_time\<close> below \<open>2\<^sup>5\<^sup>3\<close> it differs from the quotient by at most the
  \<open>2\<^sup>2\<^sup>3\<close>-th part of the quotient.
\<close>

theorem collate_fn_padded_batch:
  assumes "batch \<noteq> []" and "\<forall>s \<in> set batch. size0 (fst s) = F"
    and "\<exists>s \<in> set batch. 0 < size1 (fst s)"
  shows "\<exists>inp tg pc sz. collate_fn batch = Inr (inp, tg, pc, sz) \<and>
           len0 inp = length batch \<and> len1 inp = 1 \<and> len2 inp = F \<and>
           len3 inp = Max ((\<lambda>s. size1 (fst s)) ` set batch) \<and>
           length pc = length batch \<and>
           (\<forall>x < length batch.
              pc ! x = float32_store (float64_div (size1 (fst (batch ! x)))
                                        (Max ((\<lambda>s. size1 (fst s)) ` set batch))) \<and>
              (size1 (fst (batch ! x)) = Max ((\<lambda>s. size1 (fst s)) ` set batch) \<longrightarrow>
                 pc ! x = 1) \<and>
              (Max ((\<lambda>s. size1 (fst s)) ` set batch) < 2 ^ 53 \<longrightarrow>
                 \<bar>pc ! x - real (size1 (fst (batch ! x))) /
                            real (Max ((\<lambda>s. size1 (fst s)) ` set batch))\<bar>
                 \<le> real (size1 (fst (batch ! x))) /
                    real (Max ((\<lambda>s. size1 (fst s)) ` set batch)) / 2 ^ 23) \<and>
              (\<forall>i j. i < F \<and> j < size1 (fst (batch ! x)) \<longrightarrow>
                       at4 inp x 0 i j = at2 (fst (batch ! x)) i j) \<and>
              (\<forall>i j. size1 (fst (batch ! x)) \<le> j \<longrightarrow> at4 inp x 0 i j = 0))"
proof -
  define M where "M = Max ((\<lambda>s. size1 (fst s)) ` set batch)"
  obtain inp tg pc sz where r: "collate_fn batch = Inr (inp, tg, pc, sz)"
    using collate_fn_returns [OF assms] by (metis prod_cases4)
  have M: "0 < M" unfolding M_def by (rule collate_fn_max_time(2) [OF r])
  have F: "len2 inp = F"
    using collate_fn_shape(3) [OF r] assms(2) by auto
  have pc: "pc = map (\<lambda>s. float32_store (float64_div (size1 (fst s)) M)) batch"
    unfolding M_def by (rule collate_fn_percentages [OF r])
  have fr: "pc ! x = float32_store (float64_div (size1 (fst (batch ! x))) M)"
    if "x < length batch" for x
    using that by (simp add: pc)
  have one: "pc ! x = 1" if "x < length batch" "size1 (fst (batch ! x)) = M" for x
    using that M by (simp add: pc fraction_of_longest)
  have near: "\<bar>pc ! x - real (size1 (fst (batch ! x))) / real M\<bar>
                \<le> real (size1 (fst (batch ! x))) / real M / 2 ^ 23"
    if "x < length batch" "M < 2 ^ 53" for x
  proof -
    have "size1 (fst (batch ! x)) \<le> M"
      unfolding M_def using that(1) by (intro Max_ge) simp_all
    then have "size1 (fst (batch ! x)) < 2 ^ 53" using that(2) by linarith
    then show ?thesis
      using fraction_error [OF _ M that(2)] fr [OF that(1)] by simp
  qed
  have el: "at4 inp x 0 i j = at2 (fst (batch ! x)) i j"
    if "x < length batch" "i < F" "j < size1 (fst (batch ! x))" for x i j
  proof -
    have "size0 (fst (batch ! x)) = F" using assms(2) that(1) by simp
    then show ?thesis
      using collate_fn_elements [OF r, of x 0 i j] that F by auto
  qed
  have pad: "at4 inp x 0 i j = 0" if "size1 (fst (batch ! x)) \<le> j" for x i j
    using collate_fn_elements [OF r, of x 0 i j] that by simp
  have "collate_fn batch = Inr (inp, tg, pc, sz) \<and>
           len0 inp = length batch \<and> len1 inp = 1 \<and> len2 inp = F \<and>
           len3 inp = M \<and> length pc = length batch \<and>
           (\<forall>x < length batch.
              pc ! x = float32_store (float64_div (size1 (fst (batch ! x))) M) \<and>
              (size1 (fst (batch ! x)) = M \<longrightarrow> pc ! x = 1) \<and>
              (M < 2 ^ 53 \<longrightarrow>
                 \<bar>pc ! x - real (size1 (fst (batch ! x))) / real M\<bar>
                 \<le> real (size1 (fst (batch ! x))) / real M / 2 ^ 23) \<and>
              (\<forall>i j. i < F \<and> j < size1 (fst (batch ! x)) \<longrightarrow>
                       at4 inp x 0 i j = at2 (fst (batch ! x)) i j) \<and>
              (\<forall>i j. size1 (fst (batch ! x)) \<le> j \<longrightarrow> at4 inp x 0 i j = 0))"
    using r collate_fn_shape(1,2) [OF r] collate_fn_shape(4) [OF r, folded M_def]
      F fr one near el pad
    by (simp add: pc)
  then show ?thesis unfolding M_def by blast
qed

theorem collate_fn_padded_batch_witness:
  "\<exists>inp tg pc sz. collate_fn two_samples = Inr (inp, tg, pc, sz) \<and>
     (len0 inp, len1 inp, len2 inp, len3 inp) = (2, 1, 4, 8) \<and>
     at4 inp 0 0 0 5 = 0 \<and> at4 inp 0 0 3 6 = 0 \<and> at4 inp 0 0 3 7 = 0 \<and>
     at4 inp 0 0 3 4 = 1 \<and>
     length pc = 2 \<and> pc ! 0 = 5 / 8 \<and> pc ! 1 = 1"
proof -
  have m: "Max ((\<lambda>s. size1 (fst s)) ` set two_samples) = 8"
    by (simp add: two_samples_def)
  have "two_samples \<noteq> []" "\<forall>s \<in> set two_samples. size0 (fst s) = 4"
    "\<exists>s \<in> set two_samples. 0 < size1 (fst s)"
    by (simp_all add: two_samples_def)
  from collate_fn_padded_batch [OF this, unfolded m] obtain inp tg pc sz where
    r: "collate_fn two_samples = Inr (inp, tg, pc, sz)" and
    s: "len0 inp = length two_samples" "len1 inp = 1" "len2 inp = 4" "len3 inp = 8"
       "length pc = length two_samples" and
    e: "\<forall>x < length two_samples.
              pc ! x = float32_store (float64_div (size1 (fst (two_samples ! x))) 8) \<and>
              (size1 (fst (two_samples ! x)) = 8 \<longrightarrow> pc ! x = 1) \<and>
              ((8::nat) < 2 ^ 53 \<longrightarrow>
                 \<bar>pc ! x - real (size1 (fst (two_samples ! x))) / real (8::nat)\<bar>
                 \<le> real (size1 (fst (two_samples ! x))) / real (8::nat) / 2 ^ 23) \<and>
              (\<forall>i j. i < 4 \<and> j < size1 (fst (two_samples ! x)) \<longrightarrow>
                       at4 inp x 0 i j = at2 (fst (two_samples ! x)) i j) \<and>
              (\<forall>i j. size1 (fst (two_samples ! x)) \<le> j \<longrightarrow> at4 inp x 0 i j = 0)"
    by blast
  have l: "length two_samples = 2" by (simp add: two_samples_def)
  have x0: "two_samples ! 0 = (Tensor2 4 5 (\<lambda>i j. 1), [1, 2])"
    and x1: "two_samples ! Suc 0 = (Tensor2 4 8 (\<lambda>i j. 1), [3])"
    by (simp_all add: two_samples_def)
  have e0: "pc ! 0 = 5 / 8" "at4 inp 0 0 3 4 = 1" "\<And>i j. 5 \<le> j \<Longrightarrow> at4 inp 0 0 i j = 0"
    using e [rule_format, of 0] by (simp_all add: l x0 fraction_5_8)
  have e1: "pc ! 1 = 1"
    using e [rule_format, of 1] by (simp add: l x1)
  show ?thesis
    using r s e0 e1 by (simp add: l)
qed

text \<open>
  C5 as stated asks for a result on every non-empty batch of one frequency-bin count, and
  for the quotient itself as the fraction. A batch whose longest sample has no time frame
  makes the collation divide by \<open>max_time = 0\<close>; and for time lengths 1 and 3 the
  fraction stored for the first sample is \<open>11184811 / 2\<^sup>2\<^sup>5\<close>, not \<open>1 / 3\<close>.
\<close>

theorem collate_fn_counterexample:
  "collate_fn [(Tensor2 4 0 (\<lambda>i j. 0), [])] = Inl ZeroDivisionError \<and>
   (\<exists>inp tg sz. collate_fn [(Tensor2 4 1 (\<lambda>i j. 1), [1]), (Tensor2 4 3 (\<lambda>i j. 1), [2])] =
                   Inr (inp, tg, [11184811 / 33554432, 1], sz)) \<and>
   11184811 / 33554432 \<noteq> (1 / 3 :: real)"
  by (simp add: collate_fn_def py_max_def collated_init_def zeros_def collate_item_def
        copy_feature_def fraction_1_3 [unfolded One_nat_def] fraction_of_longest Let_def
        upt_rec [of 0] upt_rec [of 1] upt_rec [of 2])

section \<open>Properties of the access history\<close>

lemma py_index_valid:
  "- int (length xs) \<le> i \<Longrightarrow> i < int (length xs) \<Longrightarrow> \<exists>v. py_index xs i = Inr v"
  by (simp add: py_index_def)

lemma SpectrogramDataset_getitem_valid:
  assumes "- int (length (ids ds)) \<le> index" "index < int (length (ids ds))"
  shows "snd (SpectrogramDataset_getitem w ds index) =
           ds\<lparr>access_history := access_history ds @ [index]\<rparr>"
proof -
  obtain sample where "py_index (ids ds) index = Inr sample"
    using py_index_valid [OF assms] by blast
  then show ?thesis
    by (simp add: SpectrogramDataset_getitem_def Let_def)
qed

lemma SpectrogramDataset_getitem_invalid:
  assumes "index < - int (length (ids ds)) \<or> int (length (ids ds)) \<le> index"
  shows "SpectrogramDataset_getitem w ds index = (Inl IndexError, ds)"
  using assms by (auto simp: SpectrogramDataset_getitem_def py_index_def)

lemma SpectrogramDataset_getitem_sequence:
  "\<forall>i \<in> set indices. - int (length (ids ds)) \<le> i \<and> i < int (length (ids ds)) \<Longrightarrow>
   fold (\<lambda>i d. snd (SpectrogramDataset_getitem w d i)) indices ds =
     ds\<lparr>access_history := access_history ds @ indices\<rparr>"
proof (induction indices arbitrary: ds)
  case Nil
  then show ?case by simp
next
  case (Cons i indices)
  let ?d = "ds\<lparr>access_history := access_history ds @ [i]\<rparr>"
  have s: "snd (SpectrogramDataset_getitem w ds i) = ?d"
    using Cons.prems by (intro SpectrogramDataset_getitem_valid) simp_all
  have "fold (\<lambda>i d. snd (SpectrogramDataset_getitem w d i)) indices ?d =
          ?d\<lparr>access_history := access_history ?d @ indices\<rparr>"
    using Cons.prems by (intro Cons.IH) simp
  then show ?case using s by simp
qed

lemma my_collate_fn_clears_history:
  "my_collate_fn w batch L = Inr (r, L') \<Longrightarrow> access_history (dataset L') = []"
  by (auto simp: my_collate_fn_def Let_def split: sum.splits prod.splits)

text \<open>
  Claim C9. A call of \<^verbatim>\<open>__getitem__\<close> of the base dataset with an index inside the
  manifest range appends that index to the access history, so after consecutive calls
  from an empty history the entries are the indices drawn, position for position; with an
  index outside the range it raises and leaves the history as it was. The variants with
  paths and with auxiliary tensors leave the dataset, and so the history, unchanged.
  \<^verbatim>\<open>my_collate_fn\<close>, when it returns, leaves the history empty.
\<close>

theorem access_history_tracking:
  "(- int (length (ids ds)) \<le> index \<and> index < int (length (ids ds)) \<longrightarrow>
      access_history (snd (SpectrogramDataset_getitem w ds index)) =
        access_history ds @ [index]) \<and>
   (index < - int (length (ids ds)) \<or> int (length (ids ds)) \<le> index \<longrightarrow>
      SpectrogramDataset_getitem w ds index = (Inl IndexError, ds)) \<and>
   ((\<forall>i \<in> set indices. - int (length (ids ds)) \<le> i \<and> i < int (length (ids ds))) \<longrightarrow>
      access_history (fold (\<lambda>i d. snd (SpectrogramDataset_getitem w d i)) indices ds) =
        access_history ds @ indices) \<and>
   snd (SpectrogramAndPathDataset_getitem w ds index) = ds \<and>
   snd (SpectrogramAndLogitsDataset_getitem w ds index) = ds \<and>
   (my_collate_fn w batch L = Inr (r, L') \<longrightarrow> access_history (dataset L') = [])"
proof (intro conjI impI)
  assume "- int (length (ids ds)) \<le> index \<and> index < int (length (ids ds))"
  then show "access_history (snd (SpectrogramDataset_getitem w ds index)) =
        access_history ds @ [index]"
    by (simp add: SpectrogramDataset_getitem_valid)
next
  assume "index < - int (length (ids ds)) \<or> int (length (ids ds)) \<le> index"
  then show "SpectrogramDataset_getitem w ds index = (Inl IndexError, ds)"
    by (rule SpectrogramDataset_getitem_invalid)
next
  assume "\<forall>i \<in> set indices. - int (length (ids ds)) \<le> i \<and> i < int (length (ids ds))"
  then show "access_history (fold (\<lambda>i d. snd (SpectrogramDataset_getitem w d i)) indices ds) =
        access_history ds @ indices"
    by (simp add: SpectrogramDataset_getitem_sequence)
next
  show "snd (SpectrogramAndPathDataset_getitem w ds index) = ds"
    by (simp add: SpectrogramAndPathDataset_getitem_def)
next
  show "snd (SpectrogramAndLogitsDataset_getitem w ds index) = ds"
    by (simp add: SpectrogramAndLogitsDataset_getitem_def)
next
  assume "my_collate_fn w batch L = Inr (r, L')"
  then show "access_history (dataset L') = []"
    by (rule my_collate_fn_clears_history)
qed

theorem access_history_tracking_witness:
  "access_history (snd (SpectrogramDataset_getitem two_files (dataset (fresh_loader [])) 1)) = [1] \<and>
   SpectrogramDataset_getitem two_files (dataset (fresh_loader [])) 2 =
     (Inl IndexError, dataset (fresh_loader [])) \<and>
   access_history (fold (\<lambda>i d. snd (SpectrogramDataset_getitem two_files d i)) [1, 0]
                        (dataset (fresh_loader []))) = [1, 0] \<and>
   (\<exists>r L'. my_collate_fn two_files two_samples (fresh_loader [0, 1]) = Inr (r, L') \<and>
            access_history (dataset L') = [])"
proof -
  obtain inp L' where
    c: "my_collate_fn two_files two_samples (fresh_loader [0, 1]) =
          Inr ((inp, [1, 2, 3], [5 / 8, 1], [2, 1]), L')"
    using my_collate_fn_two_samples by blast
  have "access_history (dataset L') = []"
    using access_history_tracking
            [of "dataset (fresh_loader [])" 1 two_files "[]" two_samples "fresh_loader [0, 1]"
                "(inp, [1, 2, 3], [5 / 8, 1], [2, 1])" L'] c
    by blast
  with c show ?thesis
    using access_history_tracking
            [of "dataset (fresh_loader [])" 1 two_files "[1, 0]" two_samples "fresh_loader [0, 1]"
                "(inp, [1, 2, 3], [5 / 8, 1], [2, 1])" L']
          access_history_tracking
            [of "dataset (fresh_loader [])" 2 two_files "[]" two_samples "fresh_loader [0, 1]"
                "(inp, [1, 2, 3], [5 / 8, 1], [2, 1])" L']
    by (simp add: fresh_loader_def)
qed

text \<open>
  C9 as stated has every variant append the index. The variant with paths returns the
  first sample of the manifest and the history is still empty.
\<close>

theorem SpectrogramAndPathDataset_getitem_history_counterexample:
  "SpectrogramAndPathDataset_getitem two_files (dataset (fresh_loader [])) 0 =
     (Inr (Tensor2 4 5 (\<lambda>i j. 1), [1, 2], ''a.wav''), dataset (fresh_loader [])) \<and>
   access_history (snd (SpectrogramAndPathDataset_getitem two_files (dataset (fresh_loader [])) 0))
     = [] \<and>
   access_history (snd (SpectrogramAndPathDataset_getitem two_files (dataset (fresh_loader [])) 0))
     \<noteq> access_history (dataset (fresh_loader [])) @ [0]"
  by (simp add: SpectrogramAndPathDataset_getitem_def two_files_def fresh_loader_def
        py_index_def parse_transcript_def make_labels_map_def py_filter_None_def)

section \<open>Properties of the auxiliary tensor\<close>

lemma copy_logit_Inr:
  assumes "copy_logit lg x logit = Inr lg'"
  shows "dim0 lg' = dim0 lg" and "dim1 lg' = dim1 lg" and "dim2 lg' = dim2 lg"
    and "at3 lg' =
           (\<lambda>a i j. if a = x \<and> i < min (size0 logit) (dim1 lg) \<and> j < dim2 lg
                    then at2 logit (if size0 logit = 1 then 0 else i)
                                   (if size1 logit = 1 then 0 else j)
                    else at3 lg a i j)"
  using assms by (auto simp: copy_logit_def Let_def split: if_splits)

lemma copy_logit_total:
  assumes "x < dim0 lg" "size0 logit \<le> dim1 lg" "size1 logit = dim2 lg"
  shows "\<exists>lg'. copy_logit lg x logit = Inr lg'"
  using assms by (simp add: copy_logit_def Let_def min_absorb1)


lemma collate_loop_logits_total:
  assumes "\<forall>x \<in> set xs. x < len0 (inputs st) \<and> size1 (fst (batch ! x)) \<le> len3 (inputs st) \<and>
             (size0 (fst (batch ! x)) = len2 (inputs st) \<or> size0 (fst (batch ! x)) = 1) \<and>
             x < dim0 lg \<and> size0 (snd (snd (snd (batch ! x)))) \<le> dim1 lg \<and>
             size1 (snd (snd (snd (batch ! x)))) = dim2 lg"
    and "0 < len1 (inputs st)" "0 < m"
  shows "\<exists>r. collate_loop_logits batch m xs (st, ps, lg) = Inr r"
  using assms
proof (induction xs arbitrary: st ps lg)
  case Nil
  then show ?case by simp
next
  case (Cons x xs)
  obtain tensor target path logit where bx: "batch ! x = (tensor, target, path, logit)"
    by (cases "batch ! x")
  have "\<exists>st1. collate_item tensor target m x st = Inr st1"
    using Cons.prems bx by (intro collate_item_total) auto
  then obtain st1 where s1: "collate_item tensor target m x st = Inr st1" ..
  have "\<exists>lg1. copy_logit lg x logit = Inr lg1"
    using Cons.prems(1) bx by (intro copy_logit_total) auto
  then obtain lg1 where c: "copy_logit lg x logit = Inr lg1" ..
  have "\<exists>r. collate_loop_logits batch m xs (st1, ps @ [path], lg1) = Inr r"
    using Cons.prems collate_item_Inr(4,5,6,7) [OF s1] copy_logit_Inr(1,2,3) [OF c]
    by (intro Cons.IH) auto
  then show ?case using s1 c bx by simp
qed


lemma collate_fn_logits_returns:
  assumes "batch \<noteq> []" and "\<forall>s \<in> set batch. size0 (fst s) = F"
    and "\<exists>s \<in> set batch. 0 < size1 (fst s)"
    and "\<forall>s \<in> set batch. size1 (snd (snd (snd s))) = C"
  shows "\<exists>r. collate_fn_logits batch = Inr r"
proof -
  obtain longest where l: "py_max (\<lambda>p. size1 (fst p)) batch = Inr longest"
    using py_max_nonempty [OF assms(1)] by blast
  obtain longest_l where ll: "py_max (\<lambda>p. size0 (snd (snd (snd p)))) batch = Inr longest_l"
    using py_max_nonempty [OF assms(1)] by blast
  note m = py_max_Inr [OF l] and ml = py_max_Inr [OF ll]
  from assms(3) obtain s where "s \<in> set batch" "0 < size1 (fst s)" by blast
  then have pos: "0 < size1 (fst longest)" using m(2) by force
  have F: "size0 (fst longest) = F" using m(1) assms(2) by simp
  have "batch ! 0 \<in> set batch" using assms(1) by simp
  then have C: "size1 (snd (snd (snd (batch ! 0)))) = C" using assms(4) by simp
  have "\<exists>r. collate_loop_logits batch (size1 (fst longest)) [0..<length batch]
       (collated_init (length batch) (size0 (fst longest)) (size1 (fst longest)), [],
        Tensor3 (length batch) (size0 (snd (snd (snd longest_l))))
          (size1 (snd (snd (snd (batch ! 0))))) (\<lambda>a i j. NegInf)) = Inr r"
    using m(2) ml(2) assms(2,4) F C pos
    by (intro collate_loop_logits_total) (simp_all add: collated_init_def zeros_def)
  then show ?thesis using l ll by (auto simp: collate_fn_logits_def Let_def)
qed



end
